theory Spec2Isabelle
  imports Complex_Main
begin

section \<open>Shared helpers\<close>

text \<open>
  Decimal rendering of a non-negative integer, as a template literal renders
  \<^verbatim>\<open>Date.now()\<close> or \<^verbatim>\<open>response.status\<close>.
\<close>

definition digit_char :: "nat \<Rightarrow> char" where
  "digit_char d = ''0123456789'' ! d"

fun show_nat :: "nat \<Rightarrow> string" where
  "show_nat n = (if n < 10 then [digit_char n] else show_nat (n div 10) @ [digit_char (n mod 10)])"

declare show_nat.simps [simp del]

text \<open>
  A thrown value, as the catch blocks look at it: \<open>Some m\<close> is an \<^verbatim>\<open>Error\<close>
  instance with message \<open>m\<close>, \<open>None\<close> is any other thrown value. The expression
  \<^verbatim>\<open>error instanceof Error ? error.message : 'Unknown error'\<close> occurs in sse.ts
  and in useIngest alike.
\<close>

definition error_message :: "string option \<Rightarrow> string" where
  "error_message e = (case e of Some m \<Rightarrow> m | None \<Rightarrow> ''Unknown error'')"

text \<open>\<^verbatim>\<open>s.substr(start, len)\<close> for a non-negative start.\<close>

definition substr :: "nat \<Rightarrow> nat \<Rightarrow> string \<Rightarrow> string" where
  "substr start len s = take len (drop start s)"

section \<open>Ingestion queue (useIngest in storage.ts)\<close>

datatype item_kind = KFile | KUrl

datatype item_status = StPending | StUploading | StSuccess | StError

record ingested_doc =
  d_filename :: string
  d_doc_id :: string
  d_chunks :: nat
  d_source :: string

record IngestResponse =
  ingested :: "ingested_doc list"
  skipped :: "string list"
  errors :: "string list"

text \<open>
  \<^verbatim>\<open>IngestItem\<close>. The field \<open>progress\<close> is a JavaScript number; the store only ever
  writes 0 and 100 into it, so it is an integer here. Optional fields are options.
\<close>

record IngestItem =
  item_id :: string
  item_name :: string
  item_type :: item_kind
  item_size :: "nat option"
  item_status :: item_status
  item_progress :: int
  item_result :: "IngestResponse option"
  item_error :: "string option"

record IngestState =
  items :: "IngestItem list"
  isUploading :: bool

text \<open>\<^verbatim>\<open>items.find(item => item.id === id)\<close>: the first item with that id.\<close>

definition find_item :: "string \<Rightarrow> IngestItem list \<Rightarrow> IngestItem option" where
  "find_item i xs = List.find (\<lambda>item. item_id item = i) xs"

text \<open>The four \<^verbatim>\<open>set((state) => ({ items: state.items.map(...) }))\<close> updates.\<close>

definition set_uploading :: "string \<Rightarrow> IngestState \<Rightarrow> IngestState" where
  "set_uploading i s = s\<lparr>items := map (\<lambda>item. if item_id item = i
      then item\<lparr>item_status := StUploading, item_progress := 0\<rparr> else item) (items s)\<rparr>"

definition set_success :: "string \<Rightarrow> IngestResponse \<Rightarrow> IngestState \<Rightarrow> IngestState" where
  "set_success i r s = s\<lparr>items := map (\<lambda>item. if item_id item = i
      then item\<lparr>item_status := StSuccess, item_progress := 100, item_result := Some r\<rparr>
      else item) (items s)\<rparr>"

definition set_error :: "string \<Rightarrow> string \<Rightarrow> IngestState \<Rightarrow> IngestState" where
  "set_error i msg s = s\<lparr>items := map (\<lambda>item. if item_id item = i
      then item\<lparr>item_status := StError, item_progress := 0, item_error := Some msg\<rparr>
      else item) (items s)\<rparr>"

definition set_pending :: "string \<Rightarrow> IngestState \<Rightarrow> IngestState" where
  "set_pending i s = s\<lparr>items := map (\<lambda>item. if item_id item = i
      then item\<lparr>item_status := StPending, item_progress := 0, item_error := None\<rparr>
      else item) (items s)\<rparr>"

text \<open>The result the file branch builds instead of calling the backend.\<close>

definition simulated_result :: "IngestItem \<Rightarrow> IngestResponse" where
  "simulated_result item =
     \<lparr>ingested = [\<lparr>d_filename = item_name item, d_doc_id = item_name item, d_chunks = 1,
                    d_source = item_name item\<rparr>],
      skipped = [], errors = []\<rparr>"

text \<open>
  How the promise of \<^verbatim>\<open>apiClient.ingestUrl(item.name)\<close> settles: with a response, or
  rejected with a thrown value.
\<close>

datatype backend_outcome = Resolved IngestResponse | Rejected "string option"

text \<open>
  \<^verbatim>\<open>uploadItem\<close> is an async function with one suspension point. \<open>uploadItem_begin\<close>
  is its synchronous part: the lookup, the guard and the update to \<open>uploading\<close>; it
  yields the item captured by the closure, or \<open>None\<close> when the call returns at the
  guard. \<open>uploadItem_settle\<close> is the part after the await, run on the state of
  that later moment: the branch on the captured item's type, then the success or
  the error update. The backend outcome is consulted in the url branch only.
\<close>

definition uploadItem_begin :: "string \<Rightarrow> IngestState \<Rightarrow> (IngestItem \<times> IngestState) option" where
  "uploadItem_begin i s =
     (case find_item i (items s) of
        None \<Rightarrow> None
      | Some item \<Rightarrow>
          if item_status item \<noteq> StPending then None else Some (item, set_uploading i s))"

definition uploadItem_settle ::
    "string \<Rightarrow> IngestItem \<Rightarrow> backend_outcome \<Rightarrow> IngestState \<Rightarrow> IngestState" where
  "uploadItem_settle i item net s =
     (if item_type item = KFile then set_success i (simulated_result item) s
      else (case net of
              Resolved r \<Rightarrow> set_success i r s
            | Rejected e \<Rightarrow> set_error i (error_message e) s))"

text \<open>
  The states a call writes, in order, when no other operation runs during its await:
  empty when the call is a no-op.
\<close>

definition uploadItem_steps :: "string \<Rightarrow> backend_outcome \<Rightarrow> IngestState \<Rightarrow> IngestState list" where
  "uploadItem_steps i net s =
     (case uploadItem_begin i s of
        None \<Rightarrow> []
      | Some (item, s1) \<Rightarrow> [s1, uploadItem_settle i item net s1])"

definition retryItem_steps :: "string \<Rightarrow> backend_outcome \<Rightarrow> IngestState \<Rightarrow> IngestState list" where
  "retryItem_steps i net s =
     (case find_item i (items s) of
        None \<Rightarrow> []
      | Some item \<Rightarrow>
          if item_status item \<noteq> StError then []
          else set_pending i s # uploadItem_steps i net (set_pending i s))"

definition final_state :: "IngestState \<Rightarrow> IngestState list \<Rightarrow> IngestState" where
  "final_state s steps = last (s # steps)"

text \<open>
  \<^verbatim>\<open>Math.round\<close> on an exact quotient: the nearest integer, a half going up.
\<close>

definition Math_round :: "rat \<Rightarrow> int" where
  "Math_round x = \<lfloor>x + 1 / 2\<rfloor>"

definition getTotalProgress :: "IngestState \<Rightarrow> int" where
  "getTotalProgress s =
     (if length (items s) = 0 then 0
      else Math_round (of_int (foldl (\<lambda>sum item. sum + item_progress item) 0 (items s))
                       / of_nat (length (items s))))"

text \<open>The arithmetic mean of the progress fields, as the specification words it.\<close>

definition mean_progress :: "IngestItem list \<Rightarrow> rat" where
  "mean_progress xs = of_int (sum_list (map item_progress xs)) / of_nat (length xs)"

section \<open>Conversation store (useChat in storage.ts)\<close>

datatype role = User | Assistant

text \<open>
  \<^verbatim>\<open>Message\<close>, with the payload types \<^verbatim>\<open>Citation\<close> and \<^verbatim>\<open>RetrievalDebug\<close> of api.ts
  left as parameters: no operation of the store looks inside them.
\<close>

record ('c, 'd) Message =
  m_id :: string
  m_role :: role
  m_content :: string
  m_timestamp :: nat
  m_citations :: "'c list option"
  m_retrievalDebug :: "'d option"
  m_isStreaming :: "bool option"
  m_error :: "string option"

text \<open>\<^verbatim>\<open>Omit<Message, 'id' | 'timestamp'>\<close>, the argument of \<^verbatim>\<open>addMessage\<close>.\<close>

record ('c, 'd) NewMessage =
  n_role :: role
  n_content :: string
  n_citations :: "'c list option"
  n_retrievalDebug :: "'d option"
  n_isStreaming :: "bool option"
  n_error :: "string option"

text \<open>
  \<^verbatim>\<open>Partial<Message>\<close>, the argument of \<^verbatim>\<open>updateMessage\<close>: \<open>None\<close> is a key that
  is absent, \<open>Some v\<close> a key that is present; for an optional field \<open>Some None\<close> is
  the key present with the value \<^verbatim>\<open>undefined\<close>.
\<close>

record ('c, 'd) MessageUpdate =
  u_id :: "string option"
  u_role :: "role option"
  u_content :: "string option"
  u_timestamp :: "nat option"
  u_citations :: "'c list option option"
  u_retrievalDebug :: "'d option option"
  u_isStreaming :: "bool option option"
  u_error :: "string option option"

record ('c, 'd) Conversation =
  conv_id :: string
  title :: string
  messages :: "('c, 'd) Message list"
  createdAt :: nat
  updatedAt :: nat

record ('c, 'd) ChatState =
  conversations :: "('c, 'd) Conversation list"
  currentConversationId :: "string option"
  isLoading :: bool
  chat_error :: "string option"

text \<open>
  What one call reads from outside the store: every \<^verbatim>\<open>Date.now()\<close> and the
  \<^verbatim>\<open>Math.random().toString(36)\<close> rendering. The update callback reads the clock once
  for each conversation it rewrites, so that reading is given by the conversation's
  position in the list.
\<close>

record env =
  now_id :: nat
  random36 :: string
  now_ts :: nat
  now_upd :: "nat \<Rightarrow> nat"

definition default_title :: string where
  "default_title = ''New Conversation''"

text \<open>
  \<^verbatim>\<open>message.content.slice(0, 50) + (message.content.length > 50 ? '...' : '')\<close>
\<close>

definition derive_title :: "string \<Rightarrow> string" where
  "derive_title content = take 50 content @ (if length content > 50 then ''...'' else [])"

text \<open>
  \<^verbatim>\<open>`msg_${Date.now()}_${Math.random().toString(36).substr(2, 9)}`\<close>
\<close>

definition message_id :: "env \<Rightarrow> string" where
  "message_id e = ''msg_'' @ show_nat (now_id e) @ ''_'' @ substr 2 9 (random36 e)"

definition newMessage :: "env \<Rightarrow> ('c, 'd) NewMessage \<Rightarrow> ('c, 'd) Message" where
  "newMessage e msg =
     \<lparr>m_id = message_id e, m_role = n_role msg, m_content = n_content msg,
      m_timestamp = now_ts e, m_citations = n_citations msg,
      m_retrievalDebug = n_retrievalDebug msg, m_isStreaming = n_isStreaming msg,
      m_error = n_error msg\<rparr>"

text \<open>
  \<^verbatim>\<open>addMessage\<close>. The first component is the value of the call: the arrow function's
  body is a block without a \<^verbatim>\<open>return\<close> statement and its declared type is
  \<^verbatim>\<open>=> void\<close>, so the call evaluates to \<^verbatim>\<open>undefined\<close>, which is \<open>None\<close> here.
\<close>

definition addMessage ::
    "env \<Rightarrow> string \<Rightarrow> ('c, 'd) NewMessage \<Rightarrow> ('c, 'd) ChatState
      \<Rightarrow> string option \<times> ('c, 'd) ChatState" where
  "addMessage e conversationId msg s =
     (None,
      s\<lparr>conversations := map (\<lambda>(k, conv).
          if conv_id conv = conversationId
          then conv\<lparr>messages := messages conv @ [newMessage e msg],
                    updatedAt := now_upd e k,
                    title := (if title conv = default_title \<and> n_role msg = User
                              then derive_title (n_content msg) else title conv)\<rparr>
          else conv) (enumerate 0 (conversations s))\<rparr>)"

text \<open>\<^verbatim>\<open>{ ...msg, ...updates }\<close>: every key present in the update wins.\<close>

definition merge_message :: "('c, 'd) Message \<Rightarrow> ('c, 'd) MessageUpdate \<Rightarrow> ('c, 'd) Message" where
  "merge_message msg u =
     \<lparr>m_id = (case u_id u of Some v \<Rightarrow> v | None \<Rightarrow> m_id msg),
      m_role = (case u_role u of Some v \<Rightarrow> v | None \<Rightarrow> m_role msg),
      m_content = (case u_content u of Some v \<Rightarrow> v | None \<Rightarrow> m_content msg),
      m_timestamp = (case u_timestamp u of Some v \<Rightarrow> v | None \<Rightarrow> m_timestamp msg),
      m_citations = (case u_citations u of Some v \<Rightarrow> v | None \<Rightarrow> m_citations msg),
      m_retrievalDebug = (case u_retrievalDebug u of Some v \<Rightarrow> v | None \<Rightarrow> m_retrievalDebug msg),
      m_isStreaming = (case u_isStreaming u of Some v \<Rightarrow> v | None \<Rightarrow> m_isStreaming msg),
      m_error = (case u_error u of Some v \<Rightarrow> v | None \<Rightarrow> m_error msg)\<rparr>"

definition updateMessage ::
    "env \<Rightarrow> string \<Rightarrow> string \<Rightarrow> ('c, 'd) MessageUpdate \<Rightarrow> ('c, 'd) ChatState
      \<Rightarrow> ('c, 'd) ChatState" where
  "updateMessage e conversationId messageId updates s =
     s\<lparr>conversations := map (\<lambda>(k, conv).
          if conv_id conv = conversationId
          then conv\<lparr>messages := map (\<lambda>msg. if m_id msg = messageId
                                              then merge_message msg updates else msg)
                                     (messages conv),
                    updatedAt := now_upd e k\<rparr>
          else conv) (enumerate 0 (conversations s))\<rparr>"

section \<open>Request headers (api.ts and sse.ts)\<close>

text \<open>
  The two settings the clients read. \<^verbatim>\<open>apiKey\<close> is a string, and the code tests it
  for truthiness: the empty string is the key that is not configured.
\<close>

record Settings =
  apiBaseUrl :: string
  apiKey :: string

text \<open>\<^verbatim>\<open>Record<string, string>\<close>, in insertion order.\<close>

type_synonym headers = "(string \<times> string) list"

definition getHeaders :: "Settings \<Rightarrow> headers" where
  "getHeaders st =
     [(''Content-Type'', ''application/json''),
      (''x-api-key'', if apiKey st \<noteq> [] then apiKey st else ''changeme'')]"

definition ingest_headers :: "Settings \<Rightarrow> headers" where
  "ingest_headers st = (if apiKey st \<noteq> [] then [(''x-api-key'', apiKey st)] else [])"

definition sse_headers :: "Settings \<Rightarrow> headers" where
  "sse_headers st =
     [(''Accept'', ''text/event-stream''), (''Cache-Control'', ''no-cache'')]
     @ (if apiKey st \<noteq> [] then [(''x-api-key'', apiKey st)] else [])"

text \<open>
  The requests the two clients issue, and the headers each passes to \<^verbatim>\<open>fetch\<close>:
  \<^verbatim>\<open>health\<close> passes none, \<^verbatim>\<open>ingest\<close> (also behind \<^verbatim>\<open>ingestUrl\<close> and
  \<^verbatim>\<open>ingestFiles\<close>) and the streaming \<^verbatim>\<open>connect\<close> build their own, every other
  method calls \<^verbatim>\<open>getHeaders\<close>.
\<close>

datatype request =
    Health | Config | Query | Ingest | ChatStream
  | AnalyzeImage | GetMultimodalTypes | GenerateIntelligence | GetIntelligence
  | GenerateSummary | GenerateKnowledgeGraph | GetKnowledgeGraph
  | GetAnalytics | GetCacheStats | UltraQuickAnswer

fun request_headers :: "request \<Rightarrow> Settings \<Rightarrow> headers" where
  "request_headers Health st = []"
| "request_headers Ingest st = ingest_headers st"
| "request_headers ChatStream st = sse_headers st"
| "request_headers r st = getHeaders st"

text \<open>The value of the API-key header of a request, if the header is sent.\<close>

definition api_key_header :: "request \<Rightarrow> Settings \<Rightarrow> string option" where
  "api_key_header r st = map_of (request_headers r st) ''x-api-key''"

section \<open>Streaming client (SSEClient in sse.ts)\<close>

subsection \<open>The line parser of the read loop\<close>

text \<open>
  A callback invocation with its argument. The argument of a dispatched event is
  the value \<^verbatim>\<open>JSON.parse\<close> returned, or the raw text of the data line when parsing
  threw and the event is a message; the error callback also receives the message
  text of a failed connection. Callbacks are taken to return normally.
\<close>

datatype 'j arg = Json 'j | Text string

datatype 'j callback =
    OnMessage "'j arg"
  | OnCitations 'j
  | OnMetadata 'j
  | OnError "'j arg"
  | OnDone 'j
  | OnOpen
  | OnClose

definition newline :: char where
  "newline = CHR 0x0A"

text \<open>
  \<^verbatim>\<open>buffer.split('\n')\<close>: the pieces between line feeds; a text without a line
  feed is one piece, and the empty text gives one empty piece.
\<close>

fun split_lines :: "string \<Rightarrow> string list" where
  "split_lines [] = [[]]"
| "split_lines (c # cs) =
     (if c = newline then [] # split_lines cs
      else (case split_lines cs of
              [] \<Rightarrow> [[c]]
            | l # ls \<Rightarrow> (c # l) # ls))"

definition startsWith :: "string \<Rightarrow> string \<Rightarrow> bool" where
  "startsWith s p = (take (length p) s = p)"

text \<open>\<^verbatim>\<open>lines.indexOf(line)\<close>: the first position holding an equal string, or -1.\<close>

fun indexOf_from :: "int \<Rightarrow> string list \<Rightarrow> string \<Rightarrow> int" where
  "indexOf_from k [] x = -1"
| "indexOf_from k (y # ys) x = (if y = x then k else indexOf_from (k + 1) ys x)"

definition indexOf :: "string list \<Rightarrow> string \<Rightarrow> int" where
  "indexOf xs x = indexOf_from 0 xs x"

text \<open>\<^verbatim>\<open>lines[k]\<close>: \<^verbatim>\<open>undefined\<close> outside the array.\<close>

definition element_at :: "string list \<Rightarrow> int \<Rightarrow> string option" where
  "element_at xs k = (if 0 \<le> k \<and> k < int (length xs) then Some (xs ! nat k) else None)"

definition handleEvent :: "string \<Rightarrow> 'j \<Rightarrow> 'j callback list" where
  "handleEvent eventType d =
     (if eventType = ''message'' then [OnMessage (Json d)]
      else if eventType = ''citations'' then [OnCitations d]
      else if eventType = ''metadata'' then [OnMetadata d]
      else if eventType = ''error'' then [OnError (Json d)]
      else if eventType = ''done'' then [OnDone d]
      else [])"

text \<open>
  The inner \<^verbatim>\<open>try\<close>: \<open>parse\<close> stands for \<^verbatim>\<open>JSON.parse\<close>, with \<open>None\<close> where it
  throws.
\<close>

definition dispatch :: "(string \<Rightarrow> 'j option) \<Rightarrow> string \<Rightarrow> string \<Rightarrow> 'j callback list" where
  "dispatch parse eventType d =
     (case parse d of
        Some v \<Rightarrow> handleEvent eventType v
      | None \<Rightarrow> if eventType = ''message'' then [OnMessage (Text d)] else [])"

text \<open>The body of \<^verbatim>\<open>for (const line of lines)\<close>.\<close>

definition process_line :: "(string \<Rightarrow> 'j option) \<Rightarrow> string list \<Rightarrow> string \<Rightarrow> 'j callback list" where
  "process_line parse lines line =
     (if startsWith line ''event: '' then
        (case element_at lines (indexOf lines line + 1) of
           None \<Rightarrow> []
         | Some dataLine \<Rightarrow>
             if startsWith dataLine ''data: ''
             then dispatch parse (drop 7 line) (drop 6 dataLine)
             else [])
      else [])"

text \<open>
  One turn of the \<^verbatim>\<open>while\<close> loop on a chunk that was read: the decoded text
  is appended to the buffer, the buffer is split, \<^verbatim>\<open>lines.pop() || ''\<close> becomes the
  new buffer and the remaining lines are processed. Chunks are the texts the
  streaming \<^verbatim>\<open>TextDecoder\<close> returns.
\<close>

definition read_chunk ::
    "(string \<Rightarrow> 'j option) \<Rightarrow> string \<Rightarrow> string \<Rightarrow> 'j callback list \<times> string" where
  "read_chunk parse buffer chunk =
     (case rev (split_lines (buffer @ chunk)) of
        [] \<Rightarrow> ([], [])
      | lst # rest \<Rightarrow> (concat (map (process_line parse (rev rest)) (rev rest)), lst))"

fun read_loop :: "(string \<Rightarrow> 'j option) \<Rightarrow> string \<Rightarrow> string list \<Rightarrow> 'j callback list" where
  "read_loop parse buffer [] = []"
| "read_loop parse buffer (chunk # chunks) =
     (case read_chunk parse buffer chunk of
        (calls, buffer') \<Rightarrow> calls @ read_loop parse buffer' chunks)"

subsection \<open>Connections, cancellation and retry\<close>

text \<open>
  The client object. \<open>controllers\<close> is the store of the \<^verbatim>\<open>AbortController\<close>
  objects created so far, each with its aborted flag; \<open>abortController\<close> holds
  the position of the current one or \<open>None\<close> for \<^verbatim>\<open>null\<close>. The field
  \<^verbatim>\<open>eventSource\<close> is never assigned and stays \<^verbatim>\<open>null\<close>; it is left out.
\<close>

record SSEClient =
  retryCount :: nat
  abortController :: "nat option"
  controllers :: "bool list"

definition maxRetries :: nat where
  "maxRetries = 3"

definition retryDelay :: nat where
  "retryDelay = 1000"


definition disconnect :: "SSEClient \<Rightarrow> SSEClient" where
  "disconnect c =
     (case abortController c of
        None \<Rightarrow> c
      | Some h \<Rightarrow> c\<lparr>controllers := (controllers c)[h := True], abortController := None\<rparr>)
     \<lparr>retryCount := 0\<rparr>"

text \<open>\<^verbatim>\<open>this.abortController = new AbortController()\<close>\<close>

definition new_controller :: "SSEClient \<Rightarrow> SSEClient" where
  "new_controller c =
     c\<lparr>abortController := Some (length (controllers c)),
       controllers := controllers c @ [False]\<rparr>"

text \<open>
  What the network does during one invocation of \<^verbatim>\<open>connect\<close>. The fetch
  rejects with a thrown value, or is aborted because the caller invoked
  \<^verbatim>\<open>disconnect()\<close> while it was pending, or resolves to a response with a status
  and possibly a body; a body delivers chunks and then ends, fails, or is aborted by
  the caller's \<^verbatim>\<open>disconnect()\<close> during a read.
\<close>

datatype ending = EndOfStream | ReadFails "string option" | ReadCancelled

datatype attempt =
    FetchFails "string option"
  | FetchCancelled
  | Response nat "(string list \<times> ending) option"

text \<open>\<^verbatim>\<open>response.ok\<close>\<close>

definition ok :: "nat \<Rightarrow> bool" where
  "ok status = (200 \<le> status \<and> status \<le> 299)"

text \<open>
  What an invocation does that can be observed: a request issued for a query, a
  callback invoked, a timer set to invoke \<^verbatim>\<open>connect\<close> again.
\<close>

datatype 'j event = Fetch string | Call "'j callback" | SetTimeout nat

datatype thrown = AbortError | Failure "string option"

text \<open>
  The outer \<^verbatim>\<open>catch\<close>. The boolean tells whether a retry was scheduled.
\<close>

definition on_thrown :: "thrown \<Rightarrow> SSEClient \<Rightarrow> 'j event list \<times> bool \<times> SSEClient" where
  "on_thrown err c =
     (case err of
        AbortError \<Rightarrow> ([Call OnClose], False, c)
      | Failure e \<Rightarrow>
          if retryCount c < maxRetries
          then ([SetTimeout (retryDelay * (retryCount c + 1))], True,
                c\<lparr>retryCount := retryCount c + 1\<rparr>)
          else ([Call (OnError (Text (error_message e))), Call OnClose], False, c))"

definition after :: "'j event list \<Rightarrow> 'j event list \<times> bool \<times> SSEClient
      \<Rightarrow> 'j event list \<times> bool \<times> SSEClient" where
  "after evs r = (case r of (evs', retry, c) \<Rightarrow> (evs @ evs', retry, c))"

text \<open>
  One invocation of \<^verbatim>\<open>connect(query, callbacks)\<close>, from the call to its return.
  A cancellation applies the caller's \<^verbatim>\<open>disconnect()\<close> to the client at the
  pending await and raises the abort error there. The address built from the base
  URL setting is taken to be one that \<^verbatim>\<open>new URL\<close> accepts, so that the request is
  issued; the headers of the request are \<open>sse_headers\<close>.
\<close>

definition connect_once ::
    "(string \<Rightarrow> 'j option) \<Rightarrow> string \<Rightarrow> attempt \<Rightarrow> SSEClient
      \<Rightarrow> 'j event list \<times> bool \<times> SSEClient" where
  "connect_once parse query a c0 =
     (let c = new_controller (disconnect c0) in
      case a of
        FetchFails e \<Rightarrow> after [Fetch query] (on_thrown (Failure e) c)
      | FetchCancelled \<Rightarrow> after [Fetch query] (on_thrown AbortError (disconnect c))
      | Response status body \<Rightarrow>
          if \<not> ok status
          then after [Fetch query]
                 (on_thrown (Failure (Some (''SSE connection failed: '' @ show_nat status))) c)
          else (case body of
                  None \<Rightarrow> after [Fetch query] (on_thrown (Failure (Some ''No response body'')) c)
                | Some (chunks, fin) \<Rightarrow>
                    (let evs = [Fetch query, Call OnOpen] @ map Call (read_loop parse [] chunks) in
                     case fin of
                       EndOfStream \<Rightarrow> (evs @ [Call OnClose], False, c)
                     | ReadFails e \<Rightarrow> after evs (on_thrown (Failure e) c)
                     | ReadCancelled \<Rightarrow> after evs (on_thrown AbortError (disconnect c)))))"

text \<open>
  A call of \<^verbatim>\<open>connect\<close> followed by the invocations its timers make. The list
  scripts the network for the first invocation and for each retry in turn; when
  it is used up, a timer that was set has not fired yet.
\<close>

fun connect :: "(string \<Rightarrow> 'j option) \<Rightarrow> string \<Rightarrow> attempt list \<Rightarrow> SSEClient
      \<Rightarrow> 'j event list \<times> SSEClient" where
  "connect parse query [] c = ([], c)"
| "connect parse query (a # as) c =
     (case connect_once parse query a c of
        (evs, retry, c') \<Rightarrow>
          if retry
          then (case connect parse query as c' of (evs', c'') \<Rightarrow> (evs @ evs', c''))
          else (evs, c'))"

text \<open>How often the error and the close callback were invoked, and the timers set.\<close>

definition error_calls :: "'j event list \<Rightarrow> nat" where
  "error_calls evs = length (filter (\<lambda>ev. case ev of Call (OnError x) \<Rightarrow> True | _ \<Rightarrow> False) evs)"

definition close_calls :: "'j event list \<Rightarrow> nat" where
  "close_calls evs = length (filter (\<lambda>ev. case ev of Call OnClose \<Rightarrow> True | _ \<Rightarrow> False) evs)"

definition timers_set :: "'j event list \<Rightarrow> nat" where
  "timers_set evs = length (filter (\<lambda>ev. case ev of SetTimeout d \<Rightarrow> True | _ \<Rightarrow> False) evs)"

definition fetches :: "'j event list \<Rightarrow> nat" where
  "fetches evs = length (filter (\<lambda>ev. case ev of Fetch q \<Rightarrow> True | _ \<Rightarrow> False) evs)"

section \<open>Example states\<close>

definition plain_item :: "string \<Rightarrow> item_kind \<Rightarrow> item_status \<Rightarrow> int \<Rightarrow> IngestItem" where
  "plain_item i k st p =
     \<lparr>item_id = i, item_name = i, item_type = k, item_size = None,
      item_status = st, item_progress = p, item_result = None, item_error = None\<rparr>"

text \<open>One finished upload beside two that have not started.\<close>

definition one_done_two_pending :: IngestState where
  "one_done_two_pending =
     \<lparr>items = [plain_item ''a.pdf'' KFile StSuccess 100, plain_item ''b.pdf'' KFile StPending 0,
               plain_item ''c.pdf'' KFile StPending 0],
      isUploading = False\<rparr>"

definition two_done :: IngestState where
  "two_done =
     \<lparr>items = [plain_item ''a.pdf'' KFile StSuccess 100, plain_item ''b.pdf'' KFile StSuccess 100],
      isUploading = False\<rparr>"

text \<open>A failed url upload beside a finished file upload.\<close>

definition failed_queue :: IngestState where
  "failed_queue =
     \<lparr>items = [(plain_item ''u1'' KUrl StError 0)\<lparr>item_error := Some ''Ingest failed: 500''\<rparr>,
               plain_item ''f1'' KFile StSuccess 100],
      isUploading = False\<rparr>"

text \<open>A file and a url, both waiting.\<close>

definition waiting_queue :: IngestState where
  "waiting_queue =
     \<lparr>items = [plain_item ''f1'' KFile StPending 0, plain_item ''u1'' KUrl StPending 0],
      isUploading = False\<rparr>"

text \<open>Clock and random readings for one call on the conversation store.\<close>

definition clock0 :: env where
  "clock0 =
     \<lparr>now_id = 1700000000000, random36 = ''0.4fzyo82mvyr'', now_ts = 1700000000001,
      now_upd = (\<lambda>k. 1700000000002)\<rparr>"

text \<open>A store holding one conversation that was just created.\<close>

definition fresh_chat :: "(unit, unit) ChatState" where
  "fresh_chat =
     \<lparr>conversations =
        [\<lparr>conv_id = ''conv_1'', title = ''New Conversation'', messages = [],
          createdAt = 1600000000000, updatedAt = 1600000000000\<rparr>],
      currentConversationId = Some ''conv_1'', isLoading = False, chat_error = None\<rparr>"

definition says :: "role \<Rightarrow> string \<Rightarrow> (unit, unit) NewMessage" where
  "says r content =
     \<lparr>n_role = r, n_content = content, n_citations = None, n_retrievalDebug = None,
      n_isStreaming = None, n_error = None\<rparr>"

definition long_text :: string where
  "long_text = replicate 51 (CHR ''a'')"

definition no_change :: "(unit, unit) MessageUpdate" where
  "no_change =
     \<lparr>u_id = None, u_role = None, u_content = None, u_timestamp = None,
      u_citations = None, u_retrievalDebug = None, u_isStreaming = None, u_error = None\<rparr>"

text \<open>
  The caller's side of a send, as \<^verbatim>\<open>handleSendMessage\<close> does it: the
  placeholder it adds for the assistant, the readings behind the identity it
  builds for that placeholder with the same template literal (same clock reading,
  its own random draw), and the update it later addresses to that identity.
\<close>

definition placeholder :: "(unit, unit) NewMessage" where
  "placeholder =
     \<lparr>n_role = Assistant, n_content = [], n_citations = None, n_retrievalDebug = None,
      n_isStreaming = Some True, n_error = None\<rparr>"

definition caller_draw :: env where
  "caller_draw = clock0\<lparr>random36 := ''0.zzzzzzzzzzz''\<rparr>"

definition final_answer :: "(unit, unit) MessageUpdate" where
  "final_answer =
     \<lparr>u_id = None, u_role = None, u_content = Some ''Hi there'', u_timestamp = None,
      u_citations = Some (Some []), u_retrievalDebug = None, u_isStreaming = Some (Some False),
      u_error = None\<rparr>"

text \<open>A store whose conversation already holds one message.\<close>

definition chatting :: "(unit, unit) ChatState" where
  "chatting =
     \<lparr>conversations =
        [\<lparr>conv_id = ''conv_1'', title = ''Hello'',
          messages = [\<lparr>m_id = ''msg_1_abc'', m_role = User, m_content = ''Hello'',
                       m_timestamp = 1600000000001, m_citations = None,
                       m_retrievalDebug = None, m_isStreaming = None, m_error = None\<rparr>],
          createdAt = 1600000000000, updatedAt = 1600000000001\<rparr>],
      currentConversationId = Some ''conv_1'', isLoading = False, chat_error = None\<rparr>"

text \<open>Settings without a key, and with one.\<close>

definition no_key :: Settings where
  "no_key = \<lparr>apiBaseUrl = [], apiKey = []\<rparr>"

definition with_key :: Settings where
  "with_key = \<lparr>apiBaseUrl = [], apiKey = ''s3cret''\<rparr>"


section \<open>Properties of the ingestion queue\<close>

lemma foldl_progress:
  "foldl (\<lambda>sum item. sum + item_progress item) a xs = a + sum_list (map item_progress xs)"
  by (induction xs arbitrary: a) auto

lemma Math_round_div:
  assumes "0 < n"
  shows "Math_round (of_int t / of_nat n) = (2 * t + int n) div (2 * int n)"
proof -
  have "(of_int t / of_nat n + 1 / 2 :: rat) = of_int (2 * t + int n) / of_int (2 * int n)"
    using assms by (simp add: field_simps)
  then show ?thesis
    unfolding Math_round_def by (simp only: floor_divide_of_int_eq)
qed

lemma getTotalProgress_div:
  "items s \<noteq> [] \<Longrightarrow> getTotalProgress s =
     (2 * sum_list (map item_progress (items s)) + int (length (items s)))
       div (2 * int (length (items s)))"
  by (simp add: getTotalProgress_def foldl_progress Math_round_div)

lemma getTotalProgress_mean:
  "items s \<noteq> [] \<Longrightarrow> getTotalProgress s = \<lfloor>mean_progress (items s) + 1 / 2\<rfloor>"
  by (simp add: getTotalProgress_def foldl_progress Math_round_def mean_progress_def)

lemma sum_progress_const:
  "\<forall>it\<in>set xs. item_progress it = P \<Longrightarrow> sum_list (map item_progress xs) = int (length xs) * P"
proof (induction xs)
  case Nil
  then show ?case by simp
next
  case (Cons a xs)
  then have "sum_list (map item_progress xs) = int (length xs) * P" and "item_progress a = P"
    by simp_all
  then show ?case by (simp add: distrib_right)
qed

lemma round_of_multiple:
  assumes n: "0 < (n::int)"
  shows "(2 * (n * P) + n) div (2 * n) = P"
proof -
  have e: "2 * (n * P) + n = n + P * (2 * n)" by (simp add: algebra_simps)
  have "(n + P * (2 * n)) div (2 * n) = P + n div (2 * n)"
    by (rule div_mult_self1) (use n in simp)
  moreover have "n div (2 * n) = 0" using n by simp
  ultimately show ?thesis by (simp only: e add_0_right)
qed

lemma getTotalProgress_const:
  assumes "items s \<noteq> []" and "\<forall>it\<in>set (items s). item_progress it = P"
  shows "getTotalProgress s = P"
proof -
  have n: "0 < int (length (items s))" using assms(1) by simp
  have "getTotalProgress s =
      (2 * (int (length (items s)) * P) + int (length (items s))) div (2 * int (length (items s)))"
    using getTotalProgress_div [OF assms(1)] sum_progress_const [OF assms(2)] by simp
  then show ?thesis
    using round_of_multiple [OF n] by simp
qed

lemma mean_one_done:
  assumes "item_progress a = 100" and "\<forall>it\<in>set (pre @ post). item_progress it = 0"
  shows "mean_progress (pre @ a # post) = 100 / of_nat (length pre + length post + 1)"
proof -
  have "\<forall>it\<in>set pre. item_progress it = 0" and "\<forall>it\<in>set post. item_progress it = 0"
    using assms(2) by simp_all
  then have "sum_list (map item_progress (pre @ a # post)) = 100"
    using assms(1) sum_progress_const [of pre 0] sum_progress_const [of post 0] by simp
  then show ?thesis
    by (simp add: mean_progress_def)
qed

lemma rounded_share_exact_iff:
  fixes m :: nat
  assumes m: "0 < m"
  shows "(rat_of_int \<lfloor>100 / of_nat m + 1 / 2 :: rat\<rfloor> = 100 / of_nat m) = (m dvd 100)"
proof -
  define r where "r = \<lfloor>100 / of_nat m + 1 / 2 :: rat\<rfloor>"
  have "r = Math_round (of_int 100 / of_nat m)"
    by (simp add: r_def Math_round_def)
  then have r: "r = (200 + int m) div (2 * int m)"
    using Math_round_div [OF m, of 100] by simp
  have "(rat_of_int r = 100 / of_nat m) = (m dvd 100)"
  proof
    assume "rat_of_int r = 100 / of_nat m"
    then have "rat_of_int r * of_nat m = 100" using m by (simp add: field_simps)
    then have "rat_of_int (r * int m) = rat_of_int 100" by simp
    then have "r * int m = 100" by (simp only: of_int_eq_iff)
    then have "int m dvd 100" by (metis dvd_triv_right)
    then show "m dvd 100" by (metis int_dvd_int_iff of_nat_numeral)
  next
    assume "m dvd 100"
    then obtain k where k: "100 = m * k" by (auto simp: dvd_def)
    have "int 100 = int (m * k)" using k by (simp only:)
    then have k': "(100::int) = int m * int k" by simp
    have "int k * (2 * int m) = 2 * (int m * int k)" by (simp add: ac_simps)
    with k' have "200 + int m = int m + int k * (2 * int m)" by linarith
    then have "r = (int m + int k * (2 * int m)) div (2 * int m)" using r by (simp only:)
    also have "\<dots> = int k + int m div (2 * int m)"
      by (rule div_mult_self1) (use m in simp)
    also have "int m div (2 * int m) = 0" using m by simp
    finally have "r = int k" by simp
    then have "r * int m = 100" using k' by (simp add: ac_simps)
    then have "rat_of_int (r * int m) = rat_of_int 100" by (simp only:)
    then have "rat_of_int r * of_nat m = 100" by simp
    then show "rat_of_int r = 100 / of_nat m" using m by (simp add: field_simps)
  qed
  then show ?thesis by (simp only: r_def)
qed

text \<open>
  Claim C7, as amended. \<open>getTotalProgress\<close> is 0 on the empty queue and otherwise
  the arithmetic mean of the progress fields rounded to the nearest integer, a half
  going up. A queue whose items all stand at the same integer progress \<open>P\<close> yields
  \<open>P\<close>. A queue of one item at 100 and \<open>N\<close> items at 0 yields \<open>100 / (N + 1)\<close>
  rounded, which is that quotient itself exactly when \<open>N + 1\<close> divides 100.
\<close>

theorem getTotalProgress_rounded_mean:
  "getTotalProgress (s\<lparr>items := []\<rparr>) = 0 \<and>
   (items s \<noteq> [] \<longrightarrow> getTotalProgress s = \<lfloor>mean_progress (items s) + 1 / 2\<rfloor>) \<and>
   (items s \<noteq> [] \<and> (\<forall>it\<in>set (items s). item_progress it = P) \<longrightarrow> getTotalProgress s = P) \<and>
   (items s = pre @ a # post \<and> item_progress a = 100 \<and>
      (\<forall>it\<in>set (pre @ post). item_progress it = 0) \<longrightarrow>
        getTotalProgress s = \<lfloor>100 / of_nat (length pre + length post + 1) + 1 / 2 :: rat\<rfloor> \<and>
        ((rat_of_int (getTotalProgress s) = 100 / of_nat (length pre + length post + 1))
           = ((length pre + length post + 1) dvd 100)))"
proof (intro conjI impI)
  show "getTotalProgress (s\<lparr>items := []\<rparr>) = 0"
    by (simp add: getTotalProgress_def)
next
  assume "items s \<noteq> []"
  then show "getTotalProgress s = \<lfloor>mean_progress (items s) + 1 / 2\<rfloor>"
    by (rule getTotalProgress_mean)
next
  assume "items s \<noteq> [] \<and> (\<forall>it\<in>set (items s). item_progress it = P)"
  then show "getTotalProgress s = P"
    using getTotalProgress_const by blast
next
  assume h: "items s = pre @ a # post \<and> item_progress a = 100 \<and>
      (\<forall>it\<in>set (pre @ post). item_progress it = 0)"
  then have ne: "items s \<noteq> []" by simp
  have "mean_progress (items s) = 100 / of_nat (length pre + length post + 1)"
    using h mean_one_done [of a pre post] by simp
  then show g: "getTotalProgress s = \<lfloor>100 / of_nat (length pre + length post + 1) + 1 / 2 :: rat\<rfloor>"
    using getTotalProgress_mean [OF ne] by simp
  show "(rat_of_int (getTotalProgress s) = 100 / of_nat (length pre + length post + 1))
           = ((length pre + length post + 1) dvd 100)"
    unfolding g by (rule rounded_share_exact_iff) simp
qed

theorem getTotalProgress_rounded_mean_witness:
  "items one_done_two_pending \<noteq> [] \<and>
   getTotalProgress one_done_two_pending = \<lfloor>mean_progress (items one_done_two_pending) + 1 / 2\<rfloor> \<and>
   getTotalProgress two_done = 100 \<and>
   getTotalProgress one_done_two_pending = \<lfloor>100 / 3 + 1 / 2 :: rat\<rfloor> \<and>
   \<not> 3 dvd (100::nat) \<and>
   rat_of_int (getTotalProgress one_done_two_pending) \<noteq> 100 / 3"
proof -
  have 1: "items one_done_two_pending \<noteq> []"
    by (simp add: one_done_two_pending_def)
  have 2: "items two_done \<noteq> [] \<and> (\<forall>it\<in>set (items two_done). item_progress it = 100)"
    by (simp add: two_done_def plain_item_def)
  have 3: "items one_done_two_pending =
        [] @ plain_item ''a.pdf'' KFile StSuccess 100
           # [plain_item ''b.pdf'' KFile StPending 0, plain_item ''c.pdf'' KFile StPending 0] \<and>
      item_progress (plain_item ''a.pdf'' KFile StSuccess 100) = 100 \<and>
      (\<forall>it\<in>set ([] @ [plain_item ''b.pdf'' KFile StPending 0, plain_item ''c.pdf'' KFile StPending 0]).
          item_progress it = 0)"
    by (simp add: one_done_two_pending_def plain_item_def)
  have 4: "\<not> 3 dvd (100::nat)" by presburger
  have 5: "length ([]::IngestItem list) + length [plain_item ''b.pdf'' KFile StPending 0,
      plain_item ''c.pdf'' KFile StPending 0] + 1 = 3" by simp
  note A = getTotalProgress_rounded_mean [of one_done_two_pending 0 "[]"
        "plain_item ''a.pdf'' KFile StSuccess 100"
        "[plain_item ''b.pdf'' KFile StPending 0, plain_item ''c.pdf'' KFile StPending 0]"]
  note B = getTotalProgress_rounded_mean [of two_done 100 "[]"
        "plain_item ''a.pdf'' KFile StSuccess 100" "[]"]
  from A 1 have m: "getTotalProgress one_done_two_pending
      = \<lfloor>mean_progress (items one_done_two_pending) + 1 / 2\<rfloor>"
    by blast
  from B 2 have c: "getTotalProgress two_done = 100"
    by blast
  from A 3 have "getTotalProgress one_done_two_pending
        = \<lfloor>100 / of_nat (length ([]::IngestItem list) + length [plain_item ''b.pdf'' KFile StPending 0,
            plain_item ''c.pdf'' KFile StPending 0] + 1) + 1 / 2 :: rat\<rfloor> \<and>
      ((rat_of_int (getTotalProgress one_done_two_pending)
          = 100 / of_nat (length ([]::IngestItem list) + length [plain_item ''b.pdf'' KFile StPending 0,
            plain_item ''c.pdf'' KFile StPending 0] + 1))
        = ((length ([]::IngestItem list) + length [plain_item ''b.pdf'' KFile StPending 0,
            plain_item ''c.pdf'' KFile StPending 0] + 1) dvd 100))"
    by blast
  then have d: "getTotalProgress one_done_two_pending = \<lfloor>100 / of_nat 3 + 1 / 2 :: rat\<rfloor> \<and>
      ((rat_of_int (getTotalProgress one_done_two_pending) = 100 / of_nat 3) = (3 dvd (100::nat)))"
    unfolding 5 .
  then have e: "getTotalProgress one_done_two_pending = \<lfloor>100 / 3 + 1 / 2 :: rat\<rfloor>"
    by simp
  from d 4 have f: "rat_of_int (getTotalProgress one_done_two_pending) \<noteq> 100 / 3"
    by simp
  from 1 m c e 4 f show ?thesis by blast
qed

text \<open>
  The claim as written fails: with one item at 100 and two at 0 the result is 33,
  which is not 100 / 3.
\<close>

theorem getTotalProgress_not_exact_mean:
  "getTotalProgress one_done_two_pending = 33 \<and>
   rat_of_int (getTotalProgress one_done_two_pending) \<noteq> 100 / (2 + 1)"
  by (simp add: getTotalProgress_div one_done_two_pending_def plain_item_def)

lemma find_item_map:
  assumes "\<And>it. item_id (f it) = item_id it"
  shows "find_item i (map (\<lambda>it. if item_id it = i then f it else it) xs)
           = map_option f (find_item i xs)"
  unfolding find_item_def using assms by (induction xs) auto

lemma find_item_set_pending:
  "find_item i (items (set_pending i s)) =
     map_option (\<lambda>it. it\<lparr>item_status := StPending, item_progress := 0, item_error := None\<rparr>)
       (find_item i (items s))"
  unfolding set_pending_def by (simp add: find_item_map)

lemma find_item_set_uploading:
  "find_item i (items (set_uploading i s)) =
     map_option (\<lambda>it. it\<lparr>item_status := StUploading, item_progress := 0\<rparr>) (find_item i (items s))"
  unfolding set_uploading_def by (simp add: find_item_map)

lemma find_item_set_success:
  "find_item i (items (set_success i r s)) =
     map_option (\<lambda>it. it\<lparr>item_status := StSuccess, item_progress := 100, item_result := Some r\<rparr>)
       (find_item i (items s))"
  unfolding set_success_def by (simp add: find_item_map)

lemma uploadItem_steps_pending:
  assumes "find_item i (items s) = Some item" and "item_status item = StPending"
  shows "uploadItem_steps i net s
           = [set_uploading i s, uploadItem_settle i item net (set_uploading i s)]"
  using assms by (simp add: uploadItem_steps_def uploadItem_begin_def)

lemma settle_file:
  "item_type item = KFile \<Longrightarrow>
     uploadItem_settle i item net s = set_success i (simulated_result item) s"
  by (simp add: uploadItem_settle_def)

lemma set_success_nth:
  "k < length (items s) \<Longrightarrow> items (set_success i r s) ! k =
     (if item_id (items s ! k) = i
      then (items s ! k)\<lparr>item_status := StSuccess, item_progress := 100, item_result := Some r\<rparr>
      else items s ! k)"
  by (simp add: set_success_def)

lemma set_uploading_nth:
  "k < length (items s) \<Longrightarrow> items (set_uploading i s) ! k =
     (if item_id (items s ! k) = i
      then (items s ! k)\<lparr>item_status := StUploading, item_progress := 0\<rparr>
      else items s ! k)"
  by (simp add: set_uploading_def)

lemma set_uploading_length: "length (items (set_uploading i s)) = length (items s)"
  by (simp add: set_uploading_def)

text \<open>
  Claim C8. \<open>retryItem\<close> writes nothing unless the item found under the id has
  status error. When it has, the first state written is the reset: every item
  under the id is pending with progress 0 and no error, all others are untouched;
  the upload then starts from that state and is not a no-op, its first write
  being the state in which the item is uploading with progress 0.
\<close>

theorem retryItem_resets_then_uploads:
  "((find_item i (items s) = None \<or>
       (\<exists>item. find_item i (items s) = Some item \<and> item_status item \<noteq> StError))
      \<longrightarrow> retryItem_steps i net s = [] \<and> final_state s (retryItem_steps i net s) = s) \<and>
   ((\<exists>item. find_item i (items s) = Some item \<and> item_status item = StError) \<longrightarrow>
      (\<exists>s2 s3. retryItem_steps i net s = [set_pending i s, s2, s3] \<and>
         uploadItem_steps i net (set_pending i s) = [s2, s3] \<and>
         s2 = set_uploading i (set_pending i s) \<and>
         length (items (set_pending i s)) = length (items s) \<and>
         (\<forall>k < length (items s). item_id (items s ! k) = i \<longrightarrow>
            item_status (items (set_pending i s) ! k) = StPending \<and>
            item_progress (items (set_pending i s) ! k) = 0 \<and>
            item_error (items (set_pending i s) ! k) = None \<and>
            item_status (items s2 ! k) = StUploading \<and>
            item_progress (items s2 ! k) = 0) \<and>
         (\<forall>k < length (items s). item_id (items s ! k) \<noteq> i \<longrightarrow>
            items (set_pending i s) ! k = items s ! k)))"
proof (intro conjI impI)
  assume "find_item i (items s) = None \<or>
       (\<exists>item. find_item i (items s) = Some item \<and> item_status item \<noteq> StError)"
  then show "retryItem_steps i net s = []"
    by (auto simp: retryItem_steps_def)
  then show "final_state s (retryItem_steps i net s) = s"
    by (simp add: final_state_def)
next
  assume "\<exists>item. find_item i (items s) = Some item \<and> item_status item = StError"
  then obtain item where it: "find_item i (items s) = Some item" "item_status item = StError"
    by blast
  let ?p = "set_pending i s"
  let ?item = "item\<lparr>item_status := StPending, item_progress := 0, item_error := None\<rparr>"
  have f: "find_item i (items ?p) = Some ?item"
    using it by (simp add: find_item_set_pending)
  have up: "uploadItem_steps i net ?p
      = [set_uploading i ?p, uploadItem_settle i ?item net (set_uploading i ?p)]"
    using f by (intro uploadItem_steps_pending) simp_all
  have r: "retryItem_steps i net s = ?p # uploadItem_steps i net ?p"
    using it by (simp add: retryItem_steps_def)
  have a: "\<forall>k < length (items s). item_id (items s ! k) = i \<longrightarrow>
            item_status (items ?p ! k) = StPending \<and>
            item_progress (items ?p ! k) = 0 \<and>
            item_error (items ?p ! k) = None \<and>
            item_status (items (set_uploading i ?p) ! k) = StUploading \<and>
            item_progress (items (set_uploading i ?p) ! k) = 0"
    by (simp add: set_pending_def set_uploading_def)
  have b: "\<forall>k < length (items s). item_id (items s ! k) \<noteq> i \<longrightarrow> items ?p ! k = items s ! k"
    by (simp add: set_pending_def)
  have l: "length (items ?p) = length (items s)"
    by (simp add: set_pending_def)
  show "\<exists>s2 s3. retryItem_steps i net s = [set_pending i s, s2, s3] \<and>
         uploadItem_steps i net (set_pending i s) = [s2, s3] \<and>
         s2 = set_uploading i (set_pending i s) \<and>
         length (items (set_pending i s)) = length (items s) \<and>
         (\<forall>k < length (items s). item_id (items s ! k) = i \<longrightarrow>
            item_status (items (set_pending i s) ! k) = StPending \<and>
            item_progress (items (set_pending i s) ! k) = 0 \<and>
            item_error (items (set_pending i s) ! k) = None \<and>
            item_status (items s2 ! k) = StUploading \<and>
            item_progress (items s2 ! k) = 0) \<and>
         (\<forall>k < length (items s). item_id (items s ! k) \<noteq> i \<longrightarrow>
            items (set_pending i s) ! k = items s ! k)" (is "\<exists>s2 s3. ?Q s2 s3")
  proof -
    have "?Q (set_uploading i ?p) (uploadItem_settle i ?item net (set_uploading i ?p))"
      using a b l by (simp only: r up)
    then show ?thesis by blast
  qed
qed

theorem retryItem_resets_then_uploads_witness:
  "retryItem_steps ''f1'' (Rejected None) failed_queue = [] \<and>
   (\<exists>s2 s3. retryItem_steps ''u1'' (Rejected None) failed_queue
               = [set_pending ''u1'' failed_queue, s2, s3] \<and>
       item_status (items (set_pending ''u1'' failed_queue) ! 0) = StPending \<and>
       item_progress (items (set_pending ''u1'' failed_queue) ! 0) = 0 \<and>
       item_error (items (set_pending ''u1'' failed_queue) ! 0) = None \<and>
       item_status (items s2 ! 0) = StUploading)"
proof -
  have 1: "\<exists>item. find_item ''f1'' (items failed_queue) = Some item \<and> item_status item \<noteq> StError"
    by (simp add: find_item_def failed_queue_def plain_item_def)
  have 2: "\<exists>item. find_item ''u1'' (items failed_queue) = Some item \<and> item_status item = StError"
    by (simp add: find_item_def failed_queue_def plain_item_def)
  have 3: "0 < length (items failed_queue)" "item_id (items failed_queue ! 0) = ''u1''"
    by (simp_all add: failed_queue_def plain_item_def)
  show ?thesis
    using retryItem_resets_then_uploads [of "''f1''" failed_queue "Rejected None"]
      retryItem_resets_then_uploads [of "''u1''" failed_queue "Rejected None"] 1 2 3
    by blast
qed

lemma new_error_needs_url:
  assumes k: "k < length (items s)"
    and before: "item_status (items s ! k) \<noteq> StError"
    and after: "item_status (items (final_state s (uploadItem_steps i net s)) ! k) = StError"
  shows "\<exists>item e. find_item i (items s) = Some item \<and> item_type item = KUrl \<and> net = Rejected e"
proof (cases "uploadItem_begin i s")
  case None
  then have "final_state s (uploadItem_steps i net s) = s"
    by (simp add: uploadItem_steps_def final_state_def)
  with before after show ?thesis by simp
next
  case (Some p)
  then obtain item where p: "p = (item, set_uploading i s)"
      and f: "find_item i (items s) = Some item"
    by (auto simp: uploadItem_begin_def split: option.splits if_splits)
  have fin: "final_state s (uploadItem_steps i net s)
      = uploadItem_settle i item net (set_uploading i s)"
    using Some p by (simp add: uploadItem_steps_def final_state_def)
  have ku: "k < length (items (set_uploading i s))"
    using k by (simp add: set_uploading_length)
  show ?thesis
  proof (cases "item_type item = KFile")
    case True
    have "item_status (items (set_success i (simulated_result item) (set_uploading i s)) ! k)
        \<noteq> StError"
      using before k by (simp add: set_success_nth [OF ku] set_uploading_nth [OF k])
    with after fin True show ?thesis by (simp add: settle_file)
  next
    case False
    then have url: "item_type item = KUrl" by (cases "item_type item") simp_all
    show ?thesis
    proof (cases net)
      case (Resolved r)
      have "item_status (items (set_success i r (set_uploading i s)) ! k) \<noteq> StError"
        using before k by (simp add: set_success_nth [OF ku] set_uploading_nth [OF k])
      with after fin False Resolved show ?thesis by (simp add: uploadItem_settle_def)
    next
      case (Rejected e)
      with f url show ?thesis by blast
    qed
  qed
qed

lemma find_item_distinct:
  "distinct (map item_id xs) \<Longrightarrow> k < length xs \<Longrightarrow> item_id (xs ! k) = i
     \<Longrightarrow> find_item i xs = Some (xs ! k)"
proof (induction xs arbitrary: k)
  case Nil
  then show ?case by simp
next
  case (Cons x xs)
  show ?case
  proof (cases k)
    case 0
    with Cons.prems show ?thesis by (simp add: find_item_def)
  next
    case (Suc j)
    with Cons.prems have j: "j < length xs" "item_id (xs ! j) = i" by simp_all
    then have "i \<in> set (map item_id xs)" by (metis length_map nth_map nth_mem)
    with Cons.prems(1) have "item_id x \<noteq> i" by auto
    moreover have "find_item i xs = Some (xs ! j)"
      using Cons.IH [of j] Cons.prems(1) j by simp
    ultimately show ?thesis using Suc by (simp add: find_item_def)
  qed
qed

lemma set_error_nth:
  "k < length (items s) \<Longrightarrow> items (set_error i m s) ! k =
     (if item_id (items s ! k) = i
      then (items s ! k)\<lparr>item_status := StError, item_progress := 0, item_error := Some m\<rparr>
      else items s ! k)"
  by (simp add: set_error_def)

lemma settle_other:
  "k < length (items s') \<Longrightarrow> item_id (items s' ! k) \<noteq> i \<Longrightarrow>
     items (uploadItem_settle i item net s') ! k = items s' ! k"
  by (simp add: uploadItem_settle_def set_success_nth set_error_nth split: backend_outcome.splits)

lemma new_error_has_id:
  assumes k: "k < length (items s)"
    and before: "item_status (items s ! k) \<noteq> StError"
    and after: "item_status (items (final_state s (uploadItem_steps i net s)) ! k) = StError"
  shows "item_id (items s ! k) = i"
proof (rule ccontr)
  assume n: "item_id (items s ! k) \<noteq> i"
  have ku: "k < length (items (set_uploading i s))"
    using k by (simp add: set_uploading_length)
  have u: "items (set_uploading i s) ! k = items s ! k"
    using n by (simp add: set_uploading_nth [OF k])
  have "items (final_state s (uploadItem_steps i net s)) ! k = items s ! k"
  proof (cases "uploadItem_begin i s")
    case None
    then show ?thesis by (simp add: final_state_def uploadItem_steps_def)
  next
    case (Some p)
    then obtain item where p: "p = (item, set_uploading i s)"
      by (auto simp: uploadItem_begin_def split: option.splits if_splits)
    have "items (uploadItem_settle i item net (set_uploading i s)) ! k
        = items (set_uploading i s) ! k"
      using ku n u by (intro settle_other) simp_all
    then show ?thesis
      using Some p u by (simp add: final_state_def uploadItem_steps_def)
  qed
  with before after show False by simp
qed

lemma new_error_is_url:
  assumes d: "distinct (map item_id (items s))"
    and k: "k < length (items s)"
    and before: "item_status (items s ! k) \<noteq> StError"
    and after: "item_status (items (final_state s (uploadItem_steps i net s)) ! k) = StError"
  shows "item_type (items s ! k) = KUrl"
proof -
  have "item_id (items s ! k) = i"
    using k before after by (rule new_error_has_id)
  then have "find_item i (items s) = Some (items s ! k)"
    using d k by (intro find_item_distinct)
  moreover obtain item e where "find_item i (items s) = Some item" "item_type item = KUrl"
    using new_error_needs_url [OF k before after] by blast
  ultimately show ?thesis by simp
qed

text \<open>
  Claim C10. For an item of kind file the part of \<open>uploadItem\<close> after the await
  does not depend on the backend, and on whatever state it runs it leaves every
  item under the id in status success with progress 100 and the synthesized result,
  which names the file, and leaves the other items alone. Started on a pending file
  item, the call writes the uploading state and then that success state. An item
  that enters status error during a call does so only when the item found under
  the id is of kind url and the backend call was rejected; where the ids of the
  queue are distinct, that item is itself of kind url.
\<close>

theorem file_upload_cannot_fail:
  "(item_type item = KFile \<longrightarrow>
      uploadItem_settle i item net s' = uploadItem_settle i item net' s' \<and>
      (\<exists>d. ingested (simulated_result item) = [d] \<and> d_filename d = item_name item) \<and>
      (\<forall>k < length (items s'). item_id (items s' ! k) = i \<longrightarrow>
         item_status (items (uploadItem_settle i item net s') ! k) = StSuccess \<and>
         item_progress (items (uploadItem_settle i item net s') ! k) = 100 \<and>
         item_result (items (uploadItem_settle i item net s') ! k) = Some (simulated_result item)) \<and>
      (\<forall>k < length (items s'). item_id (items s' ! k) \<noteq> i \<longrightarrow>
         items (uploadItem_settle i item net s') ! k = items s' ! k)) \<and>
   (find_item i (items s) = Some item \<and> item_type item = KFile \<and> item_status item = StPending \<longrightarrow>
      (\<exists>s1 s2. uploadItem_steps i net s = [s1, s2] \<and> s1 = set_uploading i s \<and>
         find_item i (items s2) = Some (item\<lparr>item_status := StSuccess, item_progress := 100,
                                              item_result := Some (simulated_result item)\<rparr>))) \<and>
   (k < length (items s) \<and> item_status (items s ! k) \<noteq> StError \<and>
      item_status (items (final_state s (uploadItem_steps i net s)) ! k) = StError \<longrightarrow>
      (\<exists>item e. find_item i (items s) = Some item \<and> item_type item = KUrl \<and> net = Rejected e)) \<and>
   (distinct (map item_id (items s)) \<and> k < length (items s) \<and>
      item_status (items s ! k) \<noteq> StError \<and>
      item_status (items (final_state s (uploadItem_steps i net s)) ! k) = StError \<longrightarrow>
      item_type (items s ! k) = KUrl)"
proof (intro conjI impI)
  assume "item_type item = KFile"
  then show "uploadItem_settle i item net s' = uploadItem_settle i item net' s'"
    by (simp add: settle_file)
next
  show "\<exists>d. ingested (simulated_result item) = [d] \<and> d_filename d = item_name item"
    by (simp add: simulated_result_def)
next
  assume "item_type item = KFile"
  then show "\<forall>k < length (items s'). item_id (items s' ! k) = i \<longrightarrow>
         item_status (items (uploadItem_settle i item net s') ! k) = StSuccess \<and>
         item_progress (items (uploadItem_settle i item net s') ! k) = 100 \<and>
         item_result (items (uploadItem_settle i item net s') ! k) = Some (simulated_result item)"
    by (simp add: settle_file set_success_nth)
next
  assume "item_type item = KFile"
  then show "\<forall>k < length (items s'). item_id (items s' ! k) \<noteq> i \<longrightarrow>
         items (uploadItem_settle i item net s') ! k = items s' ! k"
    by (simp add: settle_file set_success_nth)
next
  assume a: "find_item i (items s) = Some item \<and> item_type item = KFile \<and> item_status item = StPending"
  then have st: "uploadItem_steps i net s
      = [set_uploading i s, set_success i (simulated_result item) (set_uploading i s)]"
    by (simp add: uploadItem_steps_pending settle_file)
  have "find_item i (items (set_success i (simulated_result item) (set_uploading i s))) =
     Some (item\<lparr>item_status := StSuccess, item_progress := 100,
                item_result := Some (simulated_result item)\<rparr>)"
    using a by (simp add: find_item_set_success find_item_set_uploading)
  with st show "\<exists>s1 s2. uploadItem_steps i net s = [s1, s2] \<and> s1 = set_uploading i s \<and>
         find_item i (items s2) = Some (item\<lparr>item_status := StSuccess, item_progress := 100,
                                              item_result := Some (simulated_result item)\<rparr>)"
    by simp
next
  assume "k < length (items s) \<and> item_status (items s ! k) \<noteq> StError \<and>
      item_status (items (final_state s (uploadItem_steps i net s)) ! k) = StError"
  then show "\<exists>item e. find_item i (items s) = Some item \<and> item_type item = KUrl \<and> net = Rejected e"
    using new_error_needs_url by blast
next
  assume "distinct (map item_id (items s)) \<and> k < length (items s) \<and>
      item_status (items s ! k) \<noteq> StError \<and>
      item_status (items (final_state s (uploadItem_steps i net s)) ! k) = StError"
  then show "item_type (items s ! k) = KUrl"
    using new_error_is_url by blast
qed

theorem file_upload_cannot_fail_witness:
  "item_status (items (uploadItem_settle ''f1'' (plain_item ''f1'' KFile StPending 0)
       (Rejected None) waiting_queue) ! 0) = StSuccess \<and>
   item_progress (items (uploadItem_settle ''f1'' (plain_item ''f1'' KFile StPending 0)
       (Rejected None) waiting_queue) ! 0) = 100 \<and>
   (\<exists>s1 s2. uploadItem_steps ''f1'' (Rejected None) waiting_queue = [s1, s2] \<and>
      find_item ''f1'' (items s2)
        = Some ((plain_item ''f1'' KFile StPending 0)\<lparr>item_status := StSuccess,
             item_progress := 100,
             item_result := Some (simulated_result (plain_item ''f1'' KFile StPending 0))\<rparr>)) \<and>
   item_status (items (final_state waiting_queue
       (uploadItem_steps ''u1'' (Rejected None) waiting_queue)) ! 1) = StError \<and>
   (\<exists>item e. find_item ''u1'' (items waiting_queue) = Some item \<and> item_type item = KUrl \<and>
       Rejected None = Rejected e) \<and>
   distinct (map item_id (items waiting_queue)) \<and>
   item_type (items waiting_queue ! 1) = KUrl"
proof -
  let ?f = "plain_item ''f1'' KFile StPending 0"
  have 1: "item_type ?f = KFile"
    by (simp add: plain_item_def)
  have 2: "0 < length (items waiting_queue)" "item_id (items waiting_queue ! 0) = ''f1''"
    by (simp_all add: waiting_queue_def plain_item_def)
  have 3: "find_item ''f1'' (items waiting_queue) = Some ?f \<and> item_type ?f = KFile \<and>
      item_status ?f = StPending"
    by (simp add: find_item_def waiting_queue_def plain_item_def)
  have 4: "1 < length (items waiting_queue) \<and> item_status (items waiting_queue ! 1) \<noteq> StError \<and>
      item_status (items (final_state waiting_queue
         (uploadItem_steps ''u1'' (Rejected None) waiting_queue)) ! 1) = StError"
    by (simp add: find_item_def waiting_queue_def plain_item_def final_state_def
        uploadItem_steps_def uploadItem_begin_def uploadItem_settle_def set_uploading_def
        set_error_def)
  note A = file_upload_cannot_fail [of ?f "''f1''" "Rejected None" waiting_queue "Rejected None"
      waiting_queue 1]
  note B = file_upload_cannot_fail [of ?f "''u1''" "Rejected None" waiting_queue "Rejected None"
      waiting_queue 1]
  from A 1 2 have a: "item_status (items (uploadItem_settle ''f1'' ?f (Rejected None) waiting_queue) ! 0)
        = StSuccess \<and>
      item_progress (items (uploadItem_settle ''f1'' ?f (Rejected None) waiting_queue) ! 0) = 100"
    by blast
  from A 3 have b: "\<exists>s1 s2. uploadItem_steps ''f1'' (Rejected None) waiting_queue = [s1, s2] \<and>
      find_item ''f1'' (items s2)
        = Some (?f\<lparr>item_status := StSuccess, item_progress := 100,
             item_result := Some (simulated_result ?f)\<rparr>)"
    by blast
  from B 4 have c: "\<exists>item e. find_item ''u1'' (items waiting_queue) = Some item \<and>
      item_type item = KUrl \<and> Rejected None = Rejected e"
    by blast
  have 5: "distinct (map item_id (items waiting_queue))"
    by (simp add: waiting_queue_def plain_item_def)
  from B 4 5 have d: "item_type (items waiting_queue ! 1) = KUrl"
    by blast
  from a b c d 4 5 show ?thesis by blast
qed

section \<open>Properties of the conversation store\<close>

lemma addMessage_nth:
  assumes "k < length (conversations s)"
  shows "conversations (snd (addMessage e cid msg s)) ! k =
     (if conv_id (conversations s ! k) = cid
      then (conversations s ! k)\<lparr>messages := messages (conversations s ! k) @ [newMessage e msg],
             updatedAt := now_upd e k,
             title := (if title (conversations s ! k) = default_title \<and> n_role msg = User
                       then derive_title (n_content msg) else title (conversations s ! k))\<rparr>
      else conversations s ! k)"
  using assms by (simp add: addMessage_def nth_enumerate_eq)

lemma addMessage_length:
  "length (conversations (snd (addMessage e cid msg s))) = length (conversations s)"
  by (simp add: addMessage_def)

lemma derive_title_length: "length (derive_title c) \<le> 53"
  by (simp add: derive_title_def)

lemma derive_title_short: "length c \<le> 50 \<Longrightarrow> derive_title c = c"
  by (simp add: derive_title_def)

lemma fresh_chat_first:
  "0 < length (conversations fresh_chat)"
  "conversations fresh_chat \<noteq> []"
  "conversations fresh_chat ! 0 =
     \<lparr>conv_id = ''conv_1'', title = ''New Conversation'', messages = [],
      createdAt = 1600000000000, updatedAt = 1600000000000\<rparr>"
  by (simp_all add: fresh_chat_def)

text \<open>
  Claim C3, as amended. While the title of a conversation is the default literal,
  \<open>addMessage\<close> with a user message sets it to the first 50 characters of the
  content, followed by the three-character marker \<^verbatim>\<open>...\<close> exactly when the
  content is longer than 50 characters: a value of at most 53 characters, and the
  content itself when that has at most 50. A title that is not the default is
  never changed by \<open>addMessage\<close>, and an assistant message changes no title.
\<close>

theorem first_user_message_sets_title:
  "(k < length (conversations s) \<and> conv_id (conversations s ! k) = cid \<and>
      title (conversations s ! k) = default_title \<and> n_role msg = User \<longrightarrow>
        title (conversations (snd (addMessage e cid msg s)) ! k)
          = take 50 (n_content msg) @ (if 50 < length (n_content msg) then ''...'' else []) \<and>
        length (title (conversations (snd (addMessage e cid msg s)) ! k)) \<le> 53 \<and>
        (length (n_content msg) \<le> 50 \<longrightarrow>
           title (conversations (snd (addMessage e cid msg s)) ! k) = n_content msg)) \<and>
   (k < length (conversations s) \<and> title (conversations s ! k) \<noteq> default_title \<longrightarrow>
        title (conversations (snd (addMessage e cid msg s)) ! k) = title (conversations s ! k)) \<and>
   (k < length (conversations s) \<and> n_role msg = Assistant \<longrightarrow>
        title (conversations (snd (addMessage e cid msg s)) ! k) = title (conversations s ! k))"
proof (intro conjI impI)
  assume h: "k < length (conversations s) \<and> conv_id (conversations s ! k) = cid \<and>
      title (conversations s ! k) = default_title \<and> n_role msg = User"
  then have t: "title (conversations (snd (addMessage e cid msg s)) ! k)
      = derive_title (n_content msg)"
    by (simp add: addMessage_nth)
  show "title (conversations (snd (addMessage e cid msg s)) ! k)
          = take 50 (n_content msg) @ (if 50 < length (n_content msg) then ''...'' else [])"
    unfolding t by (simp add: derive_title_def)
  show "length (title (conversations (snd (addMessage e cid msg s)) ! k)) \<le> 53"
    unfolding t by (rule derive_title_length)
  assume "length (n_content msg) \<le> 50"
  then show "title (conversations (snd (addMessage e cid msg s)) ! k) = n_content msg"
    unfolding t by (rule derive_title_short)
next
  assume "k < length (conversations s) \<and> title (conversations s ! k) \<noteq> default_title"
  then show "title (conversations (snd (addMessage e cid msg s)) ! k) = title (conversations s ! k)"
    by (simp add: addMessage_nth)
next
  assume "k < length (conversations s) \<and> n_role msg = Assistant"
  then show "title (conversations (snd (addMessage e cid msg s)) ! k) = title (conversations s ! k)"
    by (simp add: addMessage_nth)
qed

theorem first_user_message_sets_title_witness:
  "title (conversations (snd (addMessage clock0 ''conv_1'' (says User ''Hello'') fresh_chat)) ! 0)
     = ''Hello'' \<and>
   title (conversations (snd (addMessage clock0 ''conv_1'' (says User ''Again'')
       (snd (addMessage clock0 ''conv_1'' (says User ''Hello'') fresh_chat)))) ! 0) = ''Hello'' \<and>
   title (conversations (snd (addMessage clock0 ''conv_1'' (says Assistant ''Hi'') fresh_chat)) ! 0)
     = ''New Conversation''"
proof -
  let ?s1 = "snd (addMessage clock0 ''conv_1'' (says User ''Hello'') fresh_chat)"
  have h1: "0 < length (conversations fresh_chat) \<and> conv_id (conversations fresh_chat ! 0) = ''conv_1'' \<and>
      title (conversations fresh_chat ! 0) = default_title \<and> n_role (says User ''Hello'') = User"
    by (simp add: fresh_chat_first default_title_def says_def)
  have len: "length (n_content (says User ''Hello'')) \<le> 50"
    by (simp add: says_def)
  from first_user_message_sets_title [of 0 fresh_chat "''conv_1''" "says User ''Hello''" clock0] h1 len
  have "title (conversations ?s1 ! 0) = n_content (says User ''Hello'')"
    by blast
  then have a: "title (conversations ?s1 ! 0) = ''Hello''"
    by (simp add: says_def)
  have h2: "0 < length (conversations ?s1) \<and> title (conversations ?s1 ! 0) \<noteq> default_title"
    using a by (simp add: addMessage_length fresh_chat_first default_title_def)
  from first_user_message_sets_title [of 0 ?s1 "''conv_1''" "says User ''Again''" clock0] h2
  have "title (conversations (snd (addMessage clock0 ''conv_1'' (says User ''Again'') ?s1)) ! 0)
      = title (conversations ?s1 ! 0)"
    by blast
  then have b: "title (conversations (snd (addMessage clock0 ''conv_1'' (says User ''Again'') ?s1)) ! 0)
      = ''Hello''"
    using a by simp
  have h3: "0 < length (conversations fresh_chat) \<and> n_role (says Assistant ''Hi'') = Assistant"
    by (simp add: fresh_chat_first says_def)
  from first_user_message_sets_title [of 0 fresh_chat "''conv_1''" "says Assistant ''Hi''" clock0] h3
  have "title (conversations (snd (addMessage clock0 ''conv_1'' (says Assistant ''Hi'') fresh_chat)) ! 0)
      = title (conversations fresh_chat ! 0)"
    by blast
  then have c: "title (conversations (snd (addMessage clock0 ''conv_1'' (says Assistant ''Hi'')
      fresh_chat)) ! 0) = ''New Conversation''"
    by (simp add: fresh_chat_first)
  from a b c show ?thesis by blast
qed

text \<open>
  The claim as written fails: a first user message of 51 characters gives a title
  of 53 characters, which is more than 51.
\<close>

theorem title_longer_than_51:
  "length long_text = 51 \<and>
   length (title (conversations (snd (addMessage clock0 ''conv_1'' (says User long_text)
      fresh_chat)) ! 0)) = 53"
  by (simp add: addMessage_nth fresh_chat_first says_def default_title_def derive_title_def
      long_text_def)

text \<open>
  What \<open>addMessage\<close> does to the state. The message it builds carries the
  identity \<^verbatim>\<open>msg_<clock>_<random suffix>\<close>, the clock reading as timestamp and
  the fields it was given; in every conversation under the given id the message is
  appended at the end of the message list and \<open>updatedAt\<close> is set to the clock
  reading; every other conversation and every other part of the state stay as
  they were. The call itself evaluates to no value.
\<close>

theorem addMessage_appends:
  "fst (addMessage e cid msg s) = None \<and>
   length (conversations (snd (addMessage e cid msg s))) = length (conversations s) \<and>
   currentConversationId (snd (addMessage e cid msg s)) = currentConversationId s \<and>
   isLoading (snd (addMessage e cid msg s)) = isLoading s \<and>
   chat_error (snd (addMessage e cid msg s)) = chat_error s \<and>
   m_id (newMessage e msg) = ''msg_'' @ show_nat (now_id e) @ ''_'' @ take 9 (drop 2 (random36 e)) \<and>
   m_timestamp (newMessage e msg) = now_ts e \<and>
   m_role (newMessage e msg) = n_role msg \<and>
   m_content (newMessage e msg) = n_content msg \<and>
   m_citations (newMessage e msg) = n_citations msg \<and>
   m_retrievalDebug (newMessage e msg) = n_retrievalDebug msg \<and>
   m_isStreaming (newMessage e msg) = n_isStreaming msg \<and>
   m_error (newMessage e msg) = n_error msg \<and>
   (k < length (conversations s) \<and> conv_id (conversations s ! k) = cid \<longrightarrow>
      messages (conversations (snd (addMessage e cid msg s)) ! k)
        = messages (conversations s ! k) @ [newMessage e msg] \<and>
      updatedAt (conversations (snd (addMessage e cid msg s)) ! k) = now_upd e k \<and>
      conv_id (conversations (snd (addMessage e cid msg s)) ! k) = cid \<and>
      createdAt (conversations (snd (addMessage e cid msg s)) ! k) = createdAt (conversations s ! k)) \<and>
   (k < length (conversations s) \<and> conv_id (conversations s ! k) \<noteq> cid \<longrightarrow>
      conversations (snd (addMessage e cid msg s)) ! k = conversations s ! k)"
proof (intro conjI impI)
  show "fst (addMessage e cid msg s) = None"
    by (simp add: addMessage_def)
  show "length (conversations (snd (addMessage e cid msg s))) = length (conversations s)"
    by (rule addMessage_length)
  show "currentConversationId (snd (addMessage e cid msg s)) = currentConversationId s"
    and "isLoading (snd (addMessage e cid msg s)) = isLoading s"
    and "chat_error (snd (addMessage e cid msg s)) = chat_error s"
    by (simp_all add: addMessage_def)
  show "m_id (newMessage e msg) = ''msg_'' @ show_nat (now_id e) @ ''_'' @ take 9 (drop 2 (random36 e))"
    by (simp add: newMessage_def message_id_def substr_def)
  show "m_timestamp (newMessage e msg) = now_ts e" "m_role (newMessage e msg) = n_role msg"
    "m_content (newMessage e msg) = n_content msg"
    "m_citations (newMessage e msg) = n_citations msg"
    "m_retrievalDebug (newMessage e msg) = n_retrievalDebug msg"
    "m_isStreaming (newMessage e msg) = n_isStreaming msg"
    "m_error (newMessage e msg) = n_error msg"
    by (simp_all add: newMessage_def)
next
  assume h: "k < length (conversations s) \<and> conv_id (conversations s ! k) = cid"
  then show "messages (conversations (snd (addMessage e cid msg s)) ! k)
        = messages (conversations s ! k) @ [newMessage e msg]"
    and "updatedAt (conversations (snd (addMessage e cid msg s)) ! k) = now_upd e k"
    and "conv_id (conversations (snd (addMessage e cid msg s)) ! k) = cid"
    and "createdAt (conversations (snd (addMessage e cid msg s)) ! k) = createdAt (conversations s ! k)"
    by (simp_all add: addMessage_nth)
next
  assume "k < length (conversations s) \<and> conv_id (conversations s ! k) \<noteq> cid"
  then show "conversations (snd (addMessage e cid msg s)) ! k = conversations s ! k"
    by (simp add: addMessage_nth)
qed

theorem addMessage_appends_witness:
  "messages (conversations (snd (addMessage clock0 ''conv_1'' (says User ''Hello'') fresh_chat)) ! 0)
     = [] @ [newMessage clock0 (says User ''Hello'')] \<and>
   updatedAt (conversations (snd (addMessage clock0 ''conv_1'' (says User ''Hello'') fresh_chat)) ! 0)
     = 1700000000002 \<and>
   conversations (snd (addMessage clock0 ''conv_2'' (says User ''Hello'') fresh_chat)) ! 0
     = conversations fresh_chat ! 0"
proof -
  have h1: "0 < length (conversations fresh_chat) \<and> conv_id (conversations fresh_chat ! 0) = ''conv_1''"
    by (simp add: fresh_chat_first)
  have h2: "0 < length (conversations fresh_chat) \<and> conv_id (conversations fresh_chat ! 0) \<noteq> ''conv_2''"
    by (simp add: fresh_chat_first)
  from addMessage_appends [of clock0 "''conv_1''" "says User ''Hello''" fresh_chat 0] h1
  have "messages (conversations (snd (addMessage clock0 ''conv_1'' (says User ''Hello'') fresh_chat)) ! 0)
        = messages (conversations fresh_chat ! 0) @ [newMessage clock0 (says User ''Hello'')] \<and>
      updatedAt (conversations (snd (addMessage clock0 ''conv_1'' (says User ''Hello'') fresh_chat)) ! 0)
        = now_upd clock0 0"
    by blast
  then have a: "messages (conversations (snd (addMessage clock0 ''conv_1'' (says User ''Hello'')
          fresh_chat)) ! 0) = [] @ [newMessage clock0 (says User ''Hello'')] \<and>
      updatedAt (conversations (snd (addMessage clock0 ''conv_1'' (says User ''Hello'') fresh_chat)) ! 0)
        = 1700000000002"
    by (simp add: fresh_chat_first clock0_def)
  from addMessage_appends [of clock0 "''conv_2''" "says User ''Hello''" fresh_chat 0] h2
  have b: "conversations (snd (addMessage clock0 ''conv_2'' (says User ''Hello'') fresh_chat)) ! 0
      = conversations fresh_chat ! 0"
    by blast
  from a b show ?thesis by blast
qed

lemma message_id_other_draw: "message_id clock0 \<noteq> message_id caller_draw"
  by (simp add: message_id_def substr_def clock0_def caller_draw_def)

lemma placeholder_added:
  "conversations (snd (addMessage clock0 ''conv_1'' placeholder fresh_chat))
     = [\<lparr>conv_id = ''conv_1'', title = ''New Conversation'',
         messages = [newMessage clock0 placeholder],
         createdAt = 1600000000000, updatedAt = 1700000000002\<rparr>]"
  by (simp add: addMessage_def fresh_chat_def placeholder_def default_title_def clock0_def)

text \<open>
  Claim C4 does not hold of the code: the message is built, stamped and appended
  and \<open>updatedAt\<close> is bumped, but the call does not return the identity of the
  message it created. Here the placeholder of the assistant is added to a new
  conversation. The call evaluates to no value, so the caller cannot learn the
  identity \<open>message_id clock0\<close> that was stored; the identity the caller builds
  for itself comes from another random draw and differs, and the update addressed
  to it leaves the placeholder as it was, empty and still streaming.
\<close>

theorem addMessage_returns_nothing:
  "fst (addMessage clock0 ''conv_1'' placeholder fresh_chat) = None \<and>
   fst (addMessage clock0 ''conv_1'' placeholder fresh_chat)
     \<noteq> Some (m_id (last (messages (conversations
          (snd (addMessage clock0 ''conv_1'' placeholder fresh_chat)) ! 0)))) \<and>
   m_id (last (messages (conversations
          (snd (addMessage clock0 ''conv_1'' placeholder fresh_chat)) ! 0))) = message_id clock0 \<and>
   message_id caller_draw \<noteq> message_id clock0 \<and>
   messages (conversations (updateMessage clock0 ''conv_1'' (message_id caller_draw) final_answer
          (snd (addMessage clock0 ''conv_1'' placeholder fresh_chat))) ! 0)
     = [newMessage clock0 placeholder] \<and>
   m_content (newMessage clock0 placeholder) = [] \<and>
   m_isStreaming (newMessage clock0 placeholder) = Some True"
proof (intro conjI)
  show "fst (addMessage clock0 ''conv_1'' placeholder fresh_chat) = None"
    by (simp add: addMessage_def)
  then show "fst (addMessage clock0 ''conv_1'' placeholder fresh_chat)
     \<noteq> Some (m_id (last (messages (conversations
          (snd (addMessage clock0 ''conv_1'' placeholder fresh_chat)) ! 0))))"
    by simp
  show "m_id (last (messages (conversations
          (snd (addMessage clock0 ''conv_1'' placeholder fresh_chat)) ! 0))) = message_id clock0"
    by (simp add: placeholder_added newMessage_def)
  show "message_id caller_draw \<noteq> message_id clock0"
    using message_id_other_draw by simp
  have "m_id (newMessage clock0 placeholder) \<noteq> message_id caller_draw"
    using message_id_other_draw by (simp add: newMessage_def)
  then show "messages (conversations (updateMessage clock0 ''conv_1'' (message_id caller_draw)
          final_answer (snd (addMessage clock0 ''conv_1'' placeholder fresh_chat))) ! 0)
     = [newMessage clock0 placeholder]"
    by (simp add: updateMessage_def placeholder_added)
  show "m_content (newMessage clock0 placeholder) = []"
    and "m_isStreaming (newMessage clock0 placeholder) = Some True"
    by (simp_all add: newMessage_def placeholder_def)
qed

lemma map_enumerate_unmatched:
  "\<forall>c\<in>set xs. \<not> P c \<Longrightarrow> map (\<lambda>(k, c). if P c then f k c else c) (enumerate n xs) = xs"
  by (induction xs arbitrary: n) auto

lemma map_messages_unmatched:
  "\<forall>m\<in>set ms. m_id m \<noteq> mid \<Longrightarrow>
     map (\<lambda>msg. if m_id msg = mid then g msg else msg) ms = ms"
  by (induction ms) auto

lemma map_enumerate_only_stamp:
  assumes "\<forall>c\<in>set xs. conv_id c = cid \<longrightarrow> (\<forall>m\<in>set (messages c). m_id m \<noteq> mid)"
  shows "map (\<lambda>(k, conv). if conv_id conv = cid
            then conv\<lparr>messages := map (\<lambda>msg. if m_id msg = mid then g msg else msg) (messages conv),
                      updatedAt := f k\<rparr>
            else conv) (enumerate n xs)
       = map (\<lambda>(k, conv). if conv_id conv = cid then conv\<lparr>updatedAt := f k\<rparr> else conv)
           (enumerate n xs)"
  using assms
proof (induction xs arbitrary: n)
  case Nil
  then show ?case by simp
next
  case (Cons c xs)
  then have tl: "\<forall>c\<in>set xs. conv_id c = cid \<longrightarrow> (\<forall>m\<in>set (messages c). m_id m \<noteq> mid)"
    by simp
  have hd: "conv_id c = cid \<Longrightarrow>
      map (\<lambda>msg. if m_id msg = mid then g msg else msg) (messages c) = messages c"
    using Cons.prems by (intro map_messages_unmatched) simp
  show ?case
    using Cons.IH [OF tl, of "Suc n"] hd by simp
qed

text \<open>
  Claim C5, as amended. \<open>updateMessage\<close> with a conversation id that no
  conversation carries leaves the whole state unchanged. With a message id that
  no message of the named conversation carries, it leaves every message list, every
  title and every other conversation unchanged, but it does set \<open>updatedAt\<close>
  of the named conversation to the clock reading.
\<close>

theorem updateMessage_unknown_ids:
  "((\<forall>c\<in>set (conversations s). conv_id c \<noteq> cid) \<longrightarrow> updateMessage e cid mid u s = s) \<and>
   ((\<forall>c\<in>set (conversations s). conv_id c = cid \<longrightarrow> (\<forall>m\<in>set (messages c). m_id m \<noteq> mid)) \<longrightarrow>
      updateMessage e cid mid u s
        = s\<lparr>conversations := map (\<lambda>(k, conv).
              if conv_id conv = cid then conv\<lparr>updatedAt := now_upd e k\<rparr> else conv)
            (enumerate 0 (conversations s))\<rparr> \<and>
      (\<forall>k < length (conversations s).
          messages (conversations (updateMessage e cid mid u s) ! k) = messages (conversations s ! k) \<and>
          title (conversations (updateMessage e cid mid u s) ! k) = title (conversations s ! k) \<and>
          (conv_id (conversations s ! k) = cid \<longrightarrow>
             updatedAt (conversations (updateMessage e cid mid u s) ! k) = now_upd e k) \<and>
          (conv_id (conversations s ! k) \<noteq> cid \<longrightarrow>
             conversations (updateMessage e cid mid u s) ! k = conversations s ! k)))"
proof (intro conjI impI)
  assume "\<forall>c\<in>set (conversations s). conv_id c \<noteq> cid"
  then show "updateMessage e cid mid u s = s"
    by (simp add: updateMessage_def map_enumerate_unmatched)
next
  assume h: "\<forall>c\<in>set (conversations s). conv_id c = cid \<longrightarrow> (\<forall>m\<in>set (messages c). m_id m \<noteq> mid)"
  show eq: "updateMessage e cid mid u s
        = s\<lparr>conversations := map (\<lambda>(k, conv).
              if conv_id conv = cid then conv\<lparr>updatedAt := now_upd e k\<rparr> else conv)
            (enumerate 0 (conversations s))\<rparr>"
    unfolding updateMessage_def by (simp only: map_enumerate_only_stamp [OF h])
  show "\<forall>k < length (conversations s).
          messages (conversations (updateMessage e cid mid u s) ! k) = messages (conversations s ! k) \<and>
          title (conversations (updateMessage e cid mid u s) ! k) = title (conversations s ! k) \<and>
          (conv_id (conversations s ! k) = cid \<longrightarrow>
             updatedAt (conversations (updateMessage e cid mid u s) ! k) = now_upd e k) \<and>
          (conv_id (conversations s ! k) \<noteq> cid \<longrightarrow>
             conversations (updateMessage e cid mid u s) ! k = conversations s ! k)"
    unfolding eq by (simp add: nth_enumerate_eq)
qed

theorem updateMessage_unknown_ids_witness:
  "messages (conversations (updateMessage clock0 ''conv_1'' ''msg_0'' final_answer chatting) ! 0)
     = messages (conversations chatting ! 0) \<and>
   messages (conversations chatting ! 0) \<noteq> [] \<and>
   updatedAt (conversations (updateMessage clock0 ''conv_1'' ''msg_0'' final_answer chatting) ! 0)
     = 1700000000002 \<and>
   updateMessage clock0 ''conv_9'' ''msg_0'' no_change fresh_chat = fresh_chat \<and>
   messages (conversations (updateMessage clock0 ''conv_1'' ''msg_0'' no_change fresh_chat) ! 0) = [] \<and>
   updatedAt (conversations (updateMessage clock0 ''conv_1'' ''msg_0'' no_change fresh_chat) ! 0)
     = 1700000000002"
proof -
  have h1: "\<forall>c\<in>set (conversations fresh_chat). conv_id c \<noteq> ''conv_9''"
    by (simp add: fresh_chat_def)
  have h2: "\<forall>c\<in>set (conversations fresh_chat). conv_id c = ''conv_1'' \<longrightarrow>
      (\<forall>m\<in>set (messages c). m_id m \<noteq> ''msg_0'')"
    by (simp add: fresh_chat_def)
  have h3: "0 < length (conversations fresh_chat)" "conv_id (conversations fresh_chat ! 0) = ''conv_1''"
    by (simp_all add: fresh_chat_first)
  from updateMessage_unknown_ids [of fresh_chat "''conv_9''" clock0 "''msg_0''" no_change] h1
  have a: "updateMessage clock0 ''conv_9'' ''msg_0'' no_change fresh_chat = fresh_chat"
    by blast
  from updateMessage_unknown_ids [of fresh_chat "''conv_1''" clock0 "''msg_0''" no_change] h2 h3
  have "messages (conversations (updateMessage clock0 ''conv_1'' ''msg_0'' no_change fresh_chat) ! 0)
        = messages (conversations fresh_chat ! 0) \<and>
      updatedAt (conversations (updateMessage clock0 ''conv_1'' ''msg_0'' no_change fresh_chat) ! 0)
        = now_upd clock0 0"
    by blast
  then have b: "messages (conversations (updateMessage clock0 ''conv_1'' ''msg_0'' no_change
          fresh_chat) ! 0) = [] \<and>
      updatedAt (conversations (updateMessage clock0 ''conv_1'' ''msg_0'' no_change fresh_chat) ! 0)
        = 1700000000002"
    by (simp add: fresh_chat_first clock0_def)
  have h4: "\<forall>c\<in>set (conversations chatting). conv_id c = ''conv_1'' \<longrightarrow>
      (\<forall>m\<in>set (messages c). m_id m \<noteq> ''msg_0'')"
    by (simp add: chatting_def)
  have h5: "0 < length (conversations chatting)" "conv_id (conversations chatting ! 0) = ''conv_1''"
    "messages (conversations chatting ! 0) \<noteq> []"
    by (simp_all add: chatting_def)
  from updateMessage_unknown_ids [of chatting "''conv_1''" clock0 "''msg_0''" final_answer] h4 h5
  have "messages (conversations (updateMessage clock0 ''conv_1'' ''msg_0'' final_answer chatting) ! 0)
        = messages (conversations chatting ! 0) \<and>
      updatedAt (conversations (updateMessage clock0 ''conv_1'' ''msg_0'' final_answer chatting) ! 0)
        = now_upd clock0 0"
    by blast
  then have c: "messages (conversations (updateMessage clock0 ''conv_1'' ''msg_0'' final_answer
          chatting) ! 0) = messages (conversations chatting ! 0) \<and>
      updatedAt (conversations (updateMessage clock0 ''conv_1'' ''msg_0'' final_answer chatting) ! 0)
        = 1700000000002"
    by (simp add: clock0_def)
  from a b c h5 show ?thesis by blast
qed

text \<open>
  The claim as written fails: a message id that the named conversation does not
  hold still moves the conversation's \<open>updatedAt\<close>, so the state changes.
\<close>

theorem updateMessage_unknown_message_touches_updatedAt:
  "updateMessage clock0 ''conv_1'' ''msg_0'' no_change fresh_chat \<noteq> fresh_chat \<and>
   updatedAt (conversations fresh_chat ! 0) = 1600000000000 \<and>
   updatedAt (conversations (updateMessage clock0 ''conv_1'' ''msg_0'' no_change fresh_chat) ! 0)
     = 1700000000002"
proof -
  have a: "updatedAt (conversations (updateMessage clock0 ''conv_1'' ''msg_0'' no_change fresh_chat) ! 0)
      = 1700000000002"
    by (simp add: updateMessage_def fresh_chat_def clock0_def)
  have b: "updatedAt (conversations fresh_chat ! 0) = 1600000000000"
    by (simp add: fresh_chat_first)
  have "updateMessage clock0 ''conv_1'' ''msg_0'' no_change fresh_chat \<noteq> fresh_chat"
  proof
    assume "updateMessage clock0 ''conv_1'' ''msg_0'' no_change fresh_chat = fresh_chat"
    then have "updatedAt (conversations (updateMessage clock0 ''conv_1'' ''msg_0'' no_change
        fresh_chat) ! 0) = updatedAt (conversations fresh_chat ! 0)"
      by (simp only:)
    with a b show False by simp
  qed
  with a b show ?thesis by blast
qed

section \<open>Properties of the request headers\<close>

lemma api_key_header_getHeaders:
  "map_of (getHeaders st) ''x-api-key'' = Some (if apiKey st = [] then ''changeme'' else apiKey st)"
  by (simp add: getHeaders_def)

lemma api_key_header_own:
  "map_of (ingest_headers st) ''x-api-key'' = (if apiKey st = [] then None else Some (apiKey st))"
  "map_of (sse_headers st) ''x-api-key'' = (if apiKey st = [] then None else Some (apiKey st))"
  by (simp_all add: ingest_headers_def sse_headers_def)

text \<open>
  Claim C9, as amended. The streaming request and the ingest request carry the
  API-key header exactly when a key is configured, with the configured key as its
  value. The health check carries no header at all. Every other request carries
  the header always: with the configured key, or with the literal \<^verbatim>\<open>changeme\<close>
  when none is configured.
\<close>

theorem api_key_header_by_request:
  "request_headers Health st = [] \<and>
   api_key_header Health st = None \<and>
   (r = Ingest \<or> r = ChatStream \<longrightarrow>
      api_key_header r st = (if apiKey st = [] then None else Some (apiKey st))) \<and>
   (r \<noteq> Health \<and> r \<noteq> Ingest \<and> r \<noteq> ChatStream \<longrightarrow>
      api_key_header r st = Some (if apiKey st = [] then ''changeme'' else apiKey st))"
proof (intro conjI impI)
  show "request_headers Health st = []"
    by simp
next
  show "api_key_header Health st = None"
    by (simp add: api_key_header_def)
next
  assume "r = Ingest \<or> r = ChatStream"
  then show "api_key_header r st = (if apiKey st = [] then None else Some (apiKey st))"
    unfolding api_key_header_def by (auto simp only: request_headers.simps api_key_header_own)
next
  assume "r \<noteq> Health \<and> r \<noteq> Ingest \<and> r \<noteq> ChatStream"
  then have "request_headers r st = getHeaders st"
    by (cases r) simp_all
  then show "api_key_header r st = Some (if apiKey st = [] then ''changeme'' else apiKey st)"
    unfolding api_key_header_def by (simp only: api_key_header_getHeaders)
qed

theorem api_key_header_by_request_witness:
  "api_key_header ChatStream no_key = None \<and>
   api_key_header Ingest with_key = Some ''s3cret'' \<and>
   api_key_header Query with_key = Some ''s3cret'' \<and>
   api_key_header GetAnalytics no_key = Some ''changeme''"
proof -
  from api_key_header_by_request [of no_key ChatStream]
  have a: "api_key_header ChatStream no_key = None"
    by (simp add: no_key_def)
  from api_key_header_by_request [of with_key Ingest]
  have b: "api_key_header Ingest with_key = Some ''s3cret''"
    by (simp add: with_key_def)
  from api_key_header_by_request [of with_key Query]
  have c: "api_key_header Query with_key = Some ''s3cret''"
    by (simp add: with_key_def)
  from api_key_header_by_request [of no_key GetAnalytics]
  have d: "api_key_header GetAnalytics no_key = Some ''changeme''"
    by (simp add: no_key_def)
  from a b c d show ?thesis by blast
qed

text \<open>
  The claim as written fails both ways: without a key the query request still
  sends the header, with a substitute value, and with a key the health check
  sends none.
\<close>

theorem api_key_header_not_exactly_when_configured:
  "apiKey no_key = [] \<and> api_key_header Query no_key = Some ''changeme'' \<and>
   apiKey with_key = ''s3cret'' \<and> api_key_header Health with_key = None"
  by (simp add: api_key_header_def getHeaders_def no_key_def with_key_def)

section \<open>Properties of the streaming client\<close>

subsection \<open>The parser on one event, whole and split\<close>

lemma split_lines_event: "split_lines (''event: message'' @ [newline]) = [''event: message'', []]"
  by (simp add: newline_def)

lemma split_lines_data: "split_lines ([] @ ''data: hi'' @ [newline]) = [''data: hi'', []]"
  by (simp add: newline_def)

lemma split_lines_pair:
  "split_lines ([] @ ''event: message'' @ [newline] @ ''data: hi'' @ [newline])
     = [''event: message'', ''data: hi'', []]"
  by (simp add: newline_def)

lemma split_lines_cut_data:
  "split_lines ([] @ ''event: message'' @ [newline] @ ''data: h'')
     = [''event: message'', ''data: h'']"
  by (simp add: newline_def)

lemma split_lines_rest_data: "split_lines (''data: h'' @ ''i'' @ [newline]) = [''data: hi'', []]"
  by (simp add: newline_def)

lemma dispatch_message_nonempty: "dispatch parse ''message'' d \<noteq> []"
  by (simp add: dispatch_def handleEvent_def split: option.splits)

lemma process_event_line_alone:
  "process_line parse [''event: message''] ''event: message'' = []"
  by (simp add: process_line_def startsWith_def indexOf_def element_at_def)

lemma process_data_line: "process_line parse ls ''data: hi'' = []"
  by (simp add: process_line_def startsWith_def)

lemma process_event_line_with_data:
  "process_line parse [''event: message'', ''data: hi''] ''event: message''
     = dispatch parse ''message'' ''hi''"
  by (simp add: process_line_def startsWith_def indexOf_def element_at_def)

lemma read_loop_whole_pair:
  "read_loop parse [] [''event: message'' @ [newline] @ ''data: hi'' @ [newline]]
     = dispatch parse ''message'' ''hi''"
  by (simp add: read_chunk_def split_lines_pair [simplified] process_event_line_with_data
      process_data_line)

text \<open>
  Claim C2 does not hold of the code. Fed as one chunk, the two lines of a message
  event dispatch one callback. Fed as two chunks that split between the
  \<^verbatim>\<open>event:\<close> line and its \<^verbatim>\<open>data:\<close> line, or inside the data line, the same text
  dispatches nothing: the data line is looked up among the lines of the current
  chunk only.
\<close>

theorem split_pair_drops_event:
  "read_loop parse [] [''event: message'' @ [newline] @ ''data: hi'' @ [newline]]
     = dispatch parse ''message'' ''hi'' \<and>
   dispatch parse ''message'' ''hi'' \<noteq> [] \<and>
   read_loop parse [] [''event: message'' @ [newline], ''data: hi'' @ [newline]] = [] \<and>
   read_loop parse [] [''event: message'' @ [newline] @ ''data: h'', ''i'' @ [newline]] = []"
proof (intro conjI)
  show "read_loop parse [] [''event: message'' @ [newline] @ ''data: hi'' @ [newline]]
     = dispatch parse ''message'' ''hi''"
    by (rule read_loop_whole_pair)
  show "dispatch parse ''message'' ''hi'' \<noteq> []"
    by (rule dispatch_message_nonempty)
  show "read_loop parse [] [''event: message'' @ [newline], ''data: hi'' @ [newline]] = []"
    by (simp add: read_chunk_def split_lines_event [simplified] split_lines_data [simplified]
        process_event_line_alone process_data_line)
  show "read_loop parse [] [''event: message'' @ [newline] @ ''data: h'', ''i'' @ [newline]] = []"
    by (simp add: read_chunk_def split_lines_cut_data [simplified]
        split_lines_rest_data [simplified] process_event_line_alone process_data_line)
qed

subsection \<open>Retry\<close>

lemma retryCount_fresh_controller: "retryCount (new_controller (disconnect c)) = 0"
  by (simp add: new_controller_def disconnect_def split: option.splits)



lemma on_thrown_failure_fresh:
  "retryCount c = 0 \<Longrightarrow>
     on_thrown (Failure e) c = ([SetTimeout 1000], True, c\<lparr>retryCount := 1\<rparr>)"
  by (simp add: on_thrown_def maxRetries_def retryDelay_def)

lemma connect_once_fetch_fails:
  "connect_once parse q (FetchFails e) c =
     ([Fetch q, SetTimeout 1000], True, (new_controller (disconnect c))\<lparr>retryCount := 1\<rparr>)"
  by (simp add: connect_once_def Let_def after_def on_thrown_failure_fresh
      retryCount_fresh_controller)

text \<open>
  However many fetches fail in a row, each one is followed by a timer of 1000 ms
  and nothing else: every invocation starts with \<open>disconnect\<close>, which puts the
  retry counter back to 0 before the catch block compares it with \<open>maxRetries\<close>.
\<close>

lemma connect_fetch_fails:
  "fst (connect parse q (map FetchFails es) c)
     = concat (map (\<lambda>e. [Fetch q, SetTimeout 1000]) es)"
  by (induction es arbitrary: c) (simp_all add: connect_once_fetch_fails split_beta)

text \<open>
  Claim C1 does not hold of the code. After three connection failures in a row the
  error callback and the close callback have not been invoked, a third timer has
  been set, and a fourth failure in the script is met by a fourth request.
\<close>

theorem three_failures_retry_again:
  "fst (connect parse q [FetchFails e1, FetchFails e2, FetchFails e3] c)
     = [Fetch q, SetTimeout 1000, Fetch q, SetTimeout 1000, Fetch q, SetTimeout 1000] \<and>
   error_calls (fst (connect parse q [FetchFails e1, FetchFails e2, FetchFails e3] c)) = 0 \<and>
   close_calls (fst (connect parse q [FetchFails e1, FetchFails e2, FetchFails e3] c)) = 0 \<and>
   timers_set (fst (connect parse q [FetchFails e1, FetchFails e2, FetchFails e3] c)) = 3 \<and>
   fetches (fst (connect parse q [FetchFails e1, FetchFails e2, FetchFails e3, FetchFails e4] c)) = 4"
proof -
  have a: "fst (connect parse q [FetchFails e1, FetchFails e2, FetchFails e3] c)
     = [Fetch q, SetTimeout 1000, Fetch q, SetTimeout 1000, Fetch q, SetTimeout 1000]"
    using connect_fetch_fails [of parse q "[e1, e2, e3]" c] by simp
  have b: "fst (connect parse q [FetchFails e1, FetchFails e2, FetchFails e3, FetchFails e4] c)
     = [Fetch q, SetTimeout 1000, Fetch q, SetTimeout 1000, Fetch q, SetTimeout 1000,
        Fetch q, SetTimeout 1000]"
    using connect_fetch_fails [of parse q "[e1, e2, e3, e4]" c] by simp
  show ?thesis
    unfolding a b by (simp add: error_calls_def close_calls_def timers_set_def fetches_def)
qed

subsection \<open>Cancellation\<close>







end
